theory Spec2Isabelle
  imports Main "HOL-Library.Sublist"
begin

section \<open>Strings and the Python library functions the chart extractor calls\<close>

text \<open>
  The chart extractor reads the characters of its text, so there a Python \<open>str\<close> is
  modelled as the list of its code points, a \<open>str\<close>; \<open>ascii\<close> gives the code points of
  an ASCII literal. The gateway and the session pass texts on unread; there a text
  is kept as a \<open>string\<close>, its bytes in UTF-8.

  The character classes are those of Python on a \<open>str\<close>, which are Unicode's.
  \<open>whitespace\<close> lists the code points of \<open>str.isspace\<close> (\<open>Py_UNICODE_ISSPACE\<close>), the class
  of \<open>\s\<close> in module \<open>re\<close> and of \<open>str.strip\<close>. The decimal digits of \<open>\d\<close> and of \<open>int\<close> are
  the code points with a decimal value (\<open>Py_UNICODE_TODECIMAL\<close>): in the Unicode
  database they stand in runs of ten, from the digit zero of a script to its digit
  nine, and \<open>digit_zeros\<close> lists the digit zero of every run of Unicode 14.0, the
  database of Python 3.11. Later versions of the database add runs for further
  scripts.
\<close>

type_synonym str = "nat list"

definition ascii :: "string \<Rightarrow> str" where
  "ascii s = map of_char s"

datatype error = ValueError | IndexError | AttributeError

definition whitespace :: "nat list" where
  "whitespace =
     [0x9, 0xA, 0xB, 0xC, 0xD, 0x1C, 0x1D, 0x1E, 0x1F, 0x20, 0x85, 0xA0, 0x1680,
      0x2000, 0x2001, 0x2002, 0x2003, 0x2004, 0x2005, 0x2006, 0x2007, 0x2008, 0x2009, 0x200A,
      0x2028, 0x2029, 0x202F, 0x205F, 0x3000]"

definition is_space :: "nat \<Rightarrow> bool" where
  "is_space c \<longleftrightarrow> c \<in> set whitespace"

definition digit_zeros :: "nat list" where
  "digit_zeros =
     [0x30, 0x660, 0x6F0, 0x7C0, 0x966, 0x9E6, 0xA66, 0xAE6, 0xB66, 0xBE6, 0xC66, 0xCE6,
      0xD66, 0xDE6, 0xE50, 0xED0, 0xF20, 0x1040, 0x1090, 0x17E0, 0x1810, 0x1946, 0x19D0,
      0x1A80, 0x1A90, 0x1B50, 0x1BB0, 0x1C40, 0x1C50, 0xA620, 0xA8D0, 0xA900, 0xA9D0,
      0xA9F0, 0xAA50, 0xABF0, 0xFF10, 0x104A0, 0x10D30, 0x11066, 0x110F0, 0x11136,
      0x111D0, 0x112F0, 0x11450, 0x114D0, 0x11650, 0x116C0, 0x11730, 0x118E0, 0x11950,
      0x11C50, 0x11D50, 0x11DA0, 0x16A60, 0x16AC0, 0x16B50, 0x1D7CE, 0x1D7D8, 0x1D7E2,
      0x1D7EC, 0x1D7F6, 0x1E140, 0x1E2F0, 0x1E950, 0x1FBF0]"

definition decimal_digit :: "nat \<Rightarrow> nat option" where
  "decimal_digit c =
     (case find (\<lambda>z. z \<le> c \<and> c \<le> z + 9) digit_zeros of
        None \<Rightarrow> None
      | Some z \<Rightarrow> Some (c - z))"

definition is_digit :: "nat \<Rightarrow> bool" where
  "is_digit c \<longleftrightarrow> decimal_digit c \<noteq> None"

definition digit_value :: "nat \<Rightarrow> int" where
  "digit_value c = (case decimal_digit c of None \<Rightarrow> 0 | Some d \<Rightarrow> int d)"

text \<open>\<open>str.strip()\<close>: the text without its leading and trailing whitespace.\<close>

definition strip_by :: "(nat \<Rightarrow> bool) \<Rightarrow> str \<Rightarrow> str" where
  "strip_by space s = rev (dropWhile space (rev (dropWhile space s)))"

definition strip :: "str \<Rightarrow> str" where
  "strip s = strip_by is_space s"

text \<open>
  \<open>int(s)\<close> for a \<open>str\<close>, base 10, as CPython reads it. Every character from code point
  127 on is first replaced: whitespace by a space, a decimal digit by the ASCII
  digit of its value, anything else by a character that is rejected. Then
  whitespace around the number is dropped, where of the ASCII characters only the
  code points 9 to 13 and 32 count (not 28 to 31, which \<open>str.strip\<close> drops); one sign
  may lead; and the rest is one or more digits, where single underscores may stand
  between digits. Anything else raises \<open>ValueError\<close>.

  Since CPython 3.11 (and 3.10.7, 3.9.14, 3.8.14, 3.7.14) the conversion also raises
  \<open>ValueError\<close> when the text has more digits than the interpreter's limit
  \<open>sys.get_int_max_str_digits()\<close>: 4300 unless reconfigured, 0 for no limit. The check
  is made only for more than 640 digits (\<open>_PY_LONG_MAX_STR_DIGITS_THRESHOLD\<close>), below
  which the limit cannot be set. The source runs on Python 3.10 or later (it
  evaluates the annotation \<open>OpenAI | None\<close>). The limit is not a constant of the
  repository, so it is a parameter of the model, \<open>max_str_digits\<close>;
  \<open>default_max_str_digits\<close> is the interpreter's default.
\<close>

definition int_space :: "nat \<Rightarrow> bool" where
  "int_space c \<longleftrightarrow> (if c < 127 then c \<in> set [0x9, 0xA, 0xB, 0xC, 0xD, 0x20] else is_space c)"

fun grouped_digits :: "str \<Rightarrow> bool" where
  "grouped_digits [] = True"
| "grouped_digits (c # cs) =
     (if is_digit c then grouped_digits cs
      else c = 0x5F \<and> (case cs of [] \<Rightarrow> False | d # ds \<Rightarrow> is_digit d \<and> grouped_digits ds))"

definition decimal :: "str \<Rightarrow> int" where
  "decimal ds = foldl (\<lambda>a c. 10 * a + digit_value c) 0 ds"

definition default_max_str_digits :: nat where
  "default_max_str_digits = 4300"

definition too_many_digits :: "nat \<Rightarrow> nat \<Rightarrow> bool" where
  "too_many_digits max_str_digits n \<longleftrightarrow> 640 < n \<and> 0 < max_str_digits \<and> max_str_digits < n"

definition py_int :: "nat \<Rightarrow> str \<Rightarrow> error + int" where
  "py_int max_str_digits s =
     (let t = strip_by int_space s;
          negative = (t \<noteq> [] \<and> hd t = 0x2D);
          body = (if t \<noteq> [] \<and> (hd t = 0x2B \<or> hd t = 0x2D) then tl t else t);
          ds = filter (\<lambda>c. c \<noteq> 0x5F) body
      in if body = [] \<or> \<not> is_digit (hd body) \<or> \<not> grouped_digits body then Inl ValueError
         else if too_many_digits max_str_digits (length ds) then Inl ValueError
         else Inr (if negative then - decimal ds else decimal ds))"

section \<open>The chart extractor (chart\_app.py, lines 72 to 89)\<close>

text \<open>
  \<open>re.findall(r'([^:]+):\s*(\d+)', text)\<close>. The pattern is tried at the head of the
  text by \<open>match_pattern\<close>: \<open>[^:]+\<close> takes the longest run of characters other than a
  colon (code point 58), which must not be empty and must end at a colon; \<open>\s*\<close>
  takes the longest run of whitespace after the colon; \<open>\d+\<close> takes the longest run
  of digits, which must not be empty. Backtracking finds nothing more: a shorter
  first group would end before a character that is not a colon, and a shorter run
  of whitespace would end before whitespace, which is not a digit. The result is
  the two groups and the text left after the match.

  \<open>findall\<close> scans from left to right: where the pattern matches, the two groups are
  one entry of the result and the scan goes on after the match (a match is never
  empty); where it does not, the scan goes on one character further.
\<close>

definition match_pattern :: "str \<Rightarrow> ((str \<times> str) \<times> str) option" where
  "match_pattern s =
     (let label = takeWhile (\<lambda>c. c \<noteq> 0x3A) s;
          after_label = dropWhile (\<lambda>c. c \<noteq> 0x3A) s
      in if label = [] then None
         else case after_label of
           [] \<Rightarrow> None
         | colon # after_colon \<Rightarrow>
             (let after_space = dropWhile is_space after_colon;
                  digits = takeWhile is_digit after_space
              in if digits = [] then None
                 else Some ((label, digits), dropWhile is_digit after_space)))"

function findall :: "str \<Rightarrow> (str \<times> str) list" where
  "findall s =
     (if s = [] then []
      else case match_pattern s of
        Some (m, rest) \<Rightarrow> m # findall rest
      | None \<Rightarrow> findall (tl s))"
  by pat_completeness auto
termination
proof (relation "measure length")
  show "wf (measure length)" by simp
next
  fix s :: str
  assume "s \<noteq> []"
  then show "(tl s, s) \<in> measure length" by (cases s) auto
next
  fix s :: str and x :: "(str \<times> str) \<times> str" and m rest
  assume a: "match_pattern s = Some x" "(m, rest) = x"
  then obtain colon after_colon where
    ac: "dropWhile (\<lambda>c. c \<noteq> 0x3A) s = colon # after_colon"
    and r: "rest = dropWhile is_digit (dropWhile is_space after_colon)"
    by (auto simp: match_pattern_def Let_def split: if_splits list.splits)
  have "length rest \<le> length after_colon"
    unfolding r by (meson length_dropWhile_le order_trans)
  moreover have "length (colon # after_colon) \<le> length s"
    using length_dropWhile_le [of "\<lambda>c. c \<noteq> 0x3A" s] ac by simp
  ultimately show "(rest, s) \<in> measure length" by simp
qed

declare findall.simps [simp del]

text \<open>
  The list comprehension \<open>[[label.strip(), int(value)] for label, value in matches]\<close>:
  the first \<open>int\<close> that raises ends it.
\<close>

fun chart_rows :: "nat \<Rightarrow> (str \<times> str) list \<Rightarrow> error + (str \<times> int) list" where
  "chart_rows max_str_digits [] = Inr []"
| "chart_rows max_str_digits ((label, digits) # matches) =
     (case py_int max_str_digits digits of
        Inl e \<Rightarrow> Inl e
      | Inr n \<Rightarrow>
          (case chart_rows max_str_digits matches of
             Inl e \<Rightarrow> Inl e
           | Inr data \<Rightarrow> Inr ((strip label, n) # data)))"

text \<open>
  \<open>extract_chart_data\<close> returns the pair \<open>(df, str(data))\<close>, or \<open>(None, None)\<close> when
  nothing matches or when anything in the \<open>try\<close> block raises. The model returns the
  rows of the data frame \<open>df\<close>, in the order of \<open>data\<close>, and \<open>None\<close> for \<open>(None, None)\<close>.
  The second component, the printed form of \<open>data\<close>, is dropped by every caller
  (\<open>df, _ = extract_chart_data(...)\<close>) and is not modelled.
\<close>

definition extract_chart_data :: "nat \<Rightarrow> str \<Rightarrow> (str \<times> int) list option" where
  "extract_chart_data max_str_digits text =
     (let matches = findall text
      in if matches = [] then None
         else case chart_rows max_str_digits matches of
           Inl e \<Rightarrow> None
         | Inr data \<Rightarrow> Some data)"

text \<open>
  An occurrence of the pattern in a text, in the words of the specification: a
  sequence of characters other than a colon (not empty), a colon, optional
  whitespace, one or more digits.
\<close>

definition pattern_occurs :: "str \<Rightarrow> bool" where
  "pattern_occurs text \<longleftrightarrow>
     (\<exists>before label ws ds rest.
        text = before @ label @ 0x3A # ws @ ds @ rest \<and>
        label \<noteq> [] \<and> 0x3A \<notin> set label \<and>
        list_all is_space ws \<and> ds \<noteq> [] \<and> list_all is_digit ds)"

section \<open>The session state and the remote assistant service\<close>

text \<open>
  A message of the history is the dictionary \<open>{"role": ..., "content": ...}\<close>. The
  Streamlit session state holds two keys, each present or not: \<open>thread_id\<close> and
  \<open>messages\<close>. Beside them the state of the model records, in order, the requests
  sent to the remote service through the client and the messages shown by
  \<open>st.error\<close>. The rendering calls (\<open>st.markdown\<close>, \<open>st.spinner\<close>, the sidebar and the
  charts) change neither the session state nor the service and are left out, and so
  is \<open>time.sleep\<close>.
\<close>

record message =
  role :: string
  content :: string

datatype request =
    ThreadsCreate
  | MessagesCreate string string string
  | RunsCreate string string
  | RunsRetrieve string string
  | MessagesList string

record state =
  thread_id :: "string option"
  messages :: "message list option"
  requests :: "request list"
  errors_shown :: "string list"

text \<open>
  The arguments of a request are those of the source: \<open>MessagesCreate thread_id role
  content\<close>, \<open>RunsCreate thread_id assistant_id\<close>, \<open>RunsRetrieve thread_id run_id\<close> and
  \<open>MessagesList thread_id\<close> (always with \<open>order="desc", limit=1\<close>).

  A content block of a message of the service is a tagged union of the client
  library; its \<open>type\<close> field is \<open>text\<close>, \<open>image_file\<close>, \<open>image_url\<close> or \<open>refusal\<close>, and only
  a text block has the attribute \<open>text\<close>.

  A \<open>service\<close> is what the remote service answers during one call of
  \<open>call_assistant\<close>: the id of the thread that \<open>threads.create\<close> returns, the id of the
  run that \<open>runs.create\<close> returns, the status of the run at each look (look 0 is the
  answer of \<open>runs.create\<close>, look \<open>k > 0\<close> the answer of the \<open>k\<close>-th \<open>runs.retrieve\<close>), and
  the \<open>data\<close> of \<open>messages.list\<close>: the content blocks of each message listed, the most
  recent first. The service answers every request: an exception of the client
  library (a transport fault) is not modelled.
\<close>

datatype content_block =
    TextContentBlock string
  | ImageFileContentBlock
  | ImageURLContentBlock
  | RefusalContentBlock string

record service =
  new_thread :: string
  new_run :: string
  run_status :: "nat \<Rightarrow> string"
  latest :: "content_block list list"

datatype client = OpenAI string

definition assistant_id :: string where
  "assistant_id = ''asst_i9gadw6w4Xd0swmScH5jH4Pv''"

definition send :: "request \<Rightarrow> state \<Rightarrow> state" where
  "send r s = s\<lparr>requests := requests s @ [r]\<rparr>"

text \<open>
  The two literals of the source with characters outside ASCII, in UTF-8: the
  sparkles (U+2728) that end the configuration error, and the warning sign
  (U+26A0 U+FE0F) that starts the status message.
\<close>

definition configuration_error :: string where
  "configuration_error =
     ''Please set the OPENAI_API_KEY environment variable '' @ [CHR 0xE2, CHR 0x9C, CHR 0xA8]"

definition status_message :: "string \<Rightarrow> string" where
  "status_message status =
     [CHR 0xE2, CHR 0x9A, CHR 0xA0, CHR 0xEF, CHR 0xB8, CHR 0x8F] @
     '' Assistant run ended with status **'' @ status @ ''**.''"

text \<open>
  \<open>get_client\<close> (app.py 94 to 99, chart\_app.py 140 to 145). Its argument is the value
  of \<open>os.getenv("OPENAI_API_KEY")\<close>; \<open>not api_key\<close> holds for \<open>None\<close> and for the empty
  text.
\<close>

definition get_client :: "string option \<Rightarrow> state \<Rightarrow> client option \<times> state" where
  "get_client api_key s =
     (if api_key = None \<or> api_key = Some []
      then (None, s\<lparr>errors_shown := errors_shown s @ [configuration_error]\<rparr>)
      else (Some (OpenAI (the api_key)), s))"

text \<open>
  \<open>ensure_thread\<close> (app.py 102 to 121, chart\_app.py 147 to 166, the same text).
  \<open>replay\<close> is its \<open>for\<close> loop over the stored messages.
\<close>

fun replay :: "string \<Rightarrow> message list \<Rightarrow> state \<Rightarrow> state" where
  "replay tid [] s = s"
| "replay tid (msg # msgs) s =
     replay tid msgs
       (if role msg = ''user'' then send (MessagesCreate tid ''user'' (content msg)) s else s)"

definition ensure_thread :: "client \<Rightarrow> string \<Rightarrow> service \<Rightarrow> state \<Rightarrow> string \<times> state" where
  "ensure_thread cl aid svc s =
     (case thread_id s of
        Some tid \<Rightarrow> (tid, s)
      | None \<Rightarrow>
          (let s1 = send ThreadsCreate s;
               tid = new_thread svc;
               s2 = s1\<lparr>thread_id := Some tid\<rparr>;
               s3 = (case messages s2 of None \<Rightarrow> s2 | Some msgs \<Rightarrow> replay tid msgs s2)
           in (tid, s3)))"

text \<open>
  The polling loop (app.py 154 to 156, chart\_app.py 207 to 209). It has no bound: when
  the service never reports a terminal status it does not return, which is the value
  \<open>None\<close>. Its result is the status that ended it.
\<close>

definition terminal :: "string \<Rightarrow> bool" where
  "terminal status \<longleftrightarrow> status \<in> {''completed'', ''failed'', ''cancelled'', ''expired''}"

partial_function (option) poll :: "service \<Rightarrow> string \<Rightarrow> nat \<Rightarrow> state \<Rightarrow> (string \<times> state) option" where
  "poll svc tid k s =
     (if terminal (run_status svc k) then Some (run_status svc k, s)
      else poll svc tid (Suc k) (send (RunsRetrieve tid (new_run svc)) s))"

declare poll.simps [code]

text \<open>
  \<open>call_assistant\<close> of app.py (131 to 165). \<open>messages.data[0].content[0].text.value\<close>
  raises \<open>IndexError\<close> when the message has no content block and \<open>AttributeError\<close> when
  its first block is not a text block.
\<close>

definition call_assistant_app ::
  "string option \<Rightarrow> service \<Rightarrow> string \<Rightarrow> state \<Rightarrow> ((error + string) \<times> state) option" where
  "call_assistant_app api_key svc user_text s =
     (case get_client api_key s of
        (None, s0) \<Rightarrow> Some (Inr [], s0)
      | (Some cl, s0) \<Rightarrow>
          (let (tid, s1) = ensure_thread cl assistant_id svc s0;
               s2 = send (MessagesCreate tid ''user'' user_text) s1;
               s3 = send (RunsCreate tid assistant_id) s2
           in case poll svc tid 0 s3 of
                None \<Rightarrow> None
              | Some (status, s4) \<Rightarrow>
                  if status \<noteq> ''completed'' then Some (Inr (status_message status), s4)
                  else (let s5 = send (MessagesList tid) s4
                        in case latest svc of
                             [] \<Rightarrow> Some (Inr ''(No assistant response)'', s5)
                           | blocks # older \<Rightarrow>
                               (case blocks of
                                  [] \<Rightarrow> Some (Inl IndexError, s5)
                                | TextContentBlock v # bs \<Rightarrow> Some (Inr v, s5)
                                | b # bs \<Rightarrow> Some (Inl AttributeError, s5)))))"

text \<open>
  \<open>call_assistant\<close> of chart\_app.py (175 to 228). \<open>enhanced_prompt\<close> is its f-string;
  \<open>collect_parts\<close> is the loop over the content blocks, \<open>content_parts\<close> its list;
  \<open>join\<close> is \<open>str.join\<close>.
\<close>

definition enhanced_prompt :: "string \<Rightarrow> string" where
  "enhanced_prompt user_text =
     ''\<newline>    '' @ user_text @
     ''\<newline>    \<newline>    If the user's request involves data that could be visualized, please include a bar chart.'' @
     ''\<newline>    Format the data as a list of lists where each inner list contains [label, value].'' @
     ''\<newline>    Example: [['' @ [CHR 0x22] @ ''Category A'' @ [CHR 0x22] @ '', 10], ['' @
     [CHR 0x22] @ ''Category B'' @ [CHR 0x22] @ '', 20]]\<newline>    ''"

fun collect_parts :: "content_block list \<Rightarrow> string list \<Rightarrow> string list" where
  "collect_parts [] content_parts = content_parts"
| "collect_parts (TextContentBlock v # bs) content_parts = collect_parts bs (content_parts @ [v])"
| "collect_parts (ImageFileContentBlock # bs) content_parts =
     collect_parts bs (content_parts @ [''[Image]''])"
| "collect_parts (b # bs) content_parts = collect_parts bs content_parts"

fun join :: "string \<Rightarrow> string list \<Rightarrow> string" where
  "join sep [] = []"
| "join sep [p] = p"
| "join sep (p # q # ps) = p @ sep @ join sep (q # ps)"

definition call_assistant_chart ::
  "string option \<Rightarrow> service \<Rightarrow> string \<Rightarrow> state \<Rightarrow> ((error + string) \<times> state) option" where
  "call_assistant_chart api_key svc user_text s =
     (case get_client api_key s of
        (None, s0) \<Rightarrow> Some (Inr [], s0)
      | (Some cl, s0) \<Rightarrow>
          (let (tid, s1) = ensure_thread cl assistant_id svc s0;
               s2 = send (MessagesCreate tid ''user'' (enhanced_prompt user_text)) s1;
               s3 = send (RunsCreate tid assistant_id) s2
           in case poll svc tid 0 s3 of
                None \<Rightarrow> None
              | Some (status, s4) \<Rightarrow>
                  if status \<noteq> ''completed'' then Some (Inr (status_message status), s4)
                  else (let s5 = send (MessagesList tid) s4
                        in case latest svc of
                             [] \<Rightarrow> Some (Inr ''(No assistant response)'', s5)
                           | blocks # older \<Rightarrow>
                               Some (Inr (join '' '' (collect_parts blocks [])), s5))))"

text \<open>
  The two calls again, watched while they run: \<open>poll_within\<close> is the polling loop for
  at most \<open>looks\<close> further looks at the run, and \<open>call_assistant_app_within\<close> and
  \<open>call_assistant_chart_within\<close> are the calls with that loop. The result is what the
  call returns, or \<open>None\<close> while it is still polling, and the state at that moment:
  what a call has sent is there also when the run never reaches a terminal status.
\<close>

fun poll_within :: "service \<Rightarrow> string \<Rightarrow> nat \<Rightarrow> nat \<Rightarrow> state \<Rightarrow> string option \<times> state" where
  "poll_within svc tid 0 k s =
     (if terminal (run_status svc k) then (Some (run_status svc k), s) else (None, s))"
| "poll_within svc tid (Suc looks) k s =
     (if terminal (run_status svc k) then (Some (run_status svc k), s)
      else poll_within svc tid looks (Suc k) (send (RunsRetrieve tid (new_run svc)) s))"

definition call_assistant_app_within ::
  "nat \<Rightarrow> string option \<Rightarrow> service \<Rightarrow> string \<Rightarrow> state \<Rightarrow> (error + string) option \<times> state" where
  "call_assistant_app_within looks api_key svc user_text s =
     (case get_client api_key s of
        (None, s0) \<Rightarrow> (Some (Inr []), s0)
      | (Some cl, s0) \<Rightarrow>
          (let (tid, s1) = ensure_thread cl assistant_id svc s0;
               s2 = send (MessagesCreate tid ''user'' user_text) s1;
               s3 = send (RunsCreate tid assistant_id) s2
           in case poll_within svc tid looks 0 s3 of
                (None, s4) \<Rightarrow> (None, s4)
              | (Some status, s4) \<Rightarrow>
                  if status \<noteq> ''completed'' then (Some (Inr (status_message status)), s4)
                  else (let s5 = send (MessagesList tid) s4
                        in case latest svc of
                             [] \<Rightarrow> (Some (Inr ''(No assistant response)''), s5)
                           | blocks # older \<Rightarrow>
                               (case blocks of
                                  [] \<Rightarrow> (Some (Inl IndexError), s5)
                                | TextContentBlock v # bs \<Rightarrow> (Some (Inr v), s5)
                                | b # bs \<Rightarrow> (Some (Inl AttributeError), s5)))))"

definition call_assistant_chart_within ::
  "nat \<Rightarrow> string option \<Rightarrow> service \<Rightarrow> string \<Rightarrow> state \<Rightarrow> (error + string) option \<times> state" where
  "call_assistant_chart_within looks api_key svc user_text s =
     (case get_client api_key s of
        (None, s0) \<Rightarrow> (Some (Inr []), s0)
      | (Some cl, s0) \<Rightarrow>
          (let (tid, s1) = ensure_thread cl assistant_id svc s0;
               s2 = send (MessagesCreate tid ''user'' (enhanced_prompt user_text)) s1;
               s3 = send (RunsCreate tid assistant_id) s2
           in case poll_within svc tid looks 0 s3 of
                (None, s4) \<Rightarrow> (None, s4)
              | (Some status, s4) \<Rightarrow>
                  if status \<noteq> ''completed'' then (Some (Inr (status_message status)), s4)
                  else (let s5 = send (MessagesList tid) s4
                        in case latest svc of
                             [] \<Rightarrow> (Some (Inr ''(No assistant response)''), s5)
                           | blocks # older \<Rightarrow>
                               (Some (Inr (join '' '' (collect_parts blocks []))), s5))))"

text \<open>
  One run of the script on a submission (app.py 124 to 125 and 184 to 203,
  chart\_app.py 168 to 169 and 261 to 288): the history is created when the session
  has none, and when the chat input holds a text, the user's message is appended,
  the assistant is called and its reply is appended. The result is the exception
  that ended the run, if any, and the state: what the run wrote to the session
  state before an exception stays there. \<open>None\<close> is a run that never returns.
\<close>

definition append_message :: "message \<Rightarrow> state \<Rightarrow> error + state" where
  "append_message msg s =
     (case messages s of
        None \<Rightarrow> Inl AttributeError
      | Some msgs \<Rightarrow> Inr (s\<lparr>messages := Some (msgs @ [msg])\<rparr>))"

definition script ::
  "(string \<Rightarrow> state \<Rightarrow> ((error + string) \<times> state) option) \<Rightarrow> string option \<Rightarrow> state \<Rightarrow>
     (error option \<times> state) option" where
  "script call user_input s =
     (let s0 = (if messages s = None then s\<lparr>messages := Some []\<rparr> else s)
      in if user_input = None \<or> user_input = Some [] then Some (None, s0)
         else case append_message \<lparr>role = ''user'', content = the user_input\<rparr> s0 of
                Inl e \<Rightarrow> Some (Some e, s0)
              | Inr s1 \<Rightarrow>
                  (case call (the user_input) s1 of
                     None \<Rightarrow> None
                   | Some (Inl e, s2) \<Rightarrow> Some (Some e, s2)
                   | Some (Inr assistant_reply, s2) \<Rightarrow>
                       (case append_message \<lparr>role = ''assistant'', content = assistant_reply\<rparr> s2 of
                          Inl e \<Rightarrow> Some (Some e, s2)
                        | Inr s3 \<Rightarrow> Some (None, s3))))"

definition script_app ::
  "string option \<Rightarrow> service \<Rightarrow> string option \<Rightarrow> state \<Rightarrow> (error option \<times> state) option" where
  "script_app api_key svc = script (call_assistant_app api_key svc)"

definition script_chart ::
  "string option \<Rightarrow> service \<Rightarrow> string option \<Rightarrow> state \<Rightarrow> (error option \<times> state) option" where
  "script_chart api_key svc = script (call_assistant_chart api_key svc)"


text \<open>
  The history as the sidebar reads it (app.py 80, chart\_app.py 126):
  \<open>st.session_state.messages if "messages" in st.session_state else []\<close>.
\<close>

definition history :: "state \<Rightarrow> message list" where
  "history s = (case messages s of None \<Rightarrow> [] | Some msgs \<Rightarrow> msgs)"

section \<open>The chart extractor: what the pattern finds\<close>

lemma whitespace_no_digit: "list_all (\<lambda>c. \<not> is_digit c) whitespace"
  by (simp add: whitespace_def is_digit_def decimal_digit_def digit_zeros_def)

lemma space_not_digit: "is_space c \<Longrightarrow> \<not> is_digit c"
  using whitespace_no_digit by (simp add: is_space_def list_all_iff)

lemma marks_no_digit: "\<not> is_digit 0x2B \<and> \<not> is_digit 0x2D \<and> \<not> is_digit 0x5F"
  by (simp add: is_digit_def decimal_digit_def digit_zeros_def)

lemma int_space_is_space: "int_space c \<Longrightarrow> is_space c"
  by (simp add: int_space_def is_space_def whitespace_def split: if_splits, blast)

lemmas eval_defs = extract_chart_data_def findall.simps match_pattern_def py_int_def strip_def
  strip_by_def int_space_def is_space_def whitespace_def is_digit_def decimal_digit_def
  digit_zeros_def too_many_digits_def decimal_def digit_value_def ascii_def

lemma match_pattern_Some:
  assumes "match_pattern s = Some ((label, ds), rest)"
  shows "\<exists>ws. s = label @ 0x3A # ws @ ds @ rest \<and> label \<noteq> [] \<and> 0x3A \<notin> set label \<and>
              list_all is_space ws \<and> ds \<noteq> [] \<and> list_all is_digit ds"
proof -
  let ?nc = "\<lambda>c::nat. c \<noteq> 0x3A"
  from assms obtain colon after_colon where
    ac: "dropWhile ?nc s = colon # after_colon"
    and l: "label = takeWhile ?nc s" "label \<noteq> []"
    and d: "ds = takeWhile is_digit (dropWhile is_space after_colon)" "ds \<noteq> []"
    and r: "rest = dropWhile is_digit (dropWhile is_space after_colon)"
    by (auto simp: match_pattern_def Let_def split: if_splits list.splits)
  have c: "colon = 0x3A"
    using hd_dropWhile [of ?nc s] ac by auto
  have s: "s = label @ colon # after_colon"
    using takeWhile_dropWhile_id [of ?nc s] ac l by simp
  have a: "after_colon = takeWhile is_space after_colon @ ds @ rest"
    unfolding d r by simp
  have "0x3A \<notin> set label"
    unfolding l using set_takeWhileD by fastforce
  moreover have "list_all is_space (takeWhile is_space after_colon)"
    by (simp add: list_all_iff) (meson set_takeWhileD)
  moreover have "list_all is_digit ds"
    unfolding d by (simp add: list_all_iff) (meson set_takeWhileD)
  ultimately show ?thesis
    using s a c l d by metis
qed

lemma match_pattern_occurrence:
  assumes "label \<noteq> []" "0x3A \<notin> set label" "list_all is_space ws" "ds \<noteq> []" "list_all is_digit ds"
  shows "match_pattern (label @ 0x3A # ws @ ds @ rest) =
           Some ((label, ds @ takeWhile is_digit rest), dropWhile is_digit rest)"
proof -
  let ?nc = "\<lambda>c::nat. c \<noteq> 0x3A"
  have nl: "\<forall>x\<in>set label. ?nc x"
    using assms(2) by auto
  have t: "takeWhile ?nc (label @ 0x3A # ws @ ds @ rest) = label"
    using nl by (simp add: takeWhile_append2)
  have dr: "dropWhile ?nc (label @ 0x3A # ws @ ds @ rest) = 0x3A # ws @ ds @ rest"
    using nl by (simp add: dropWhile_append2)
  have hd: "\<not> is_space (hd ds)"
    using assms(4,5) space_not_digit by (cases ds) auto
  have sp: "dropWhile is_space (ws @ ds @ rest) = ds @ rest"
    using assms(3,4) hd by (cases ds) (auto simp: list_all_iff dropWhile_append2)
  have td: "takeWhile is_digit (ds @ rest) = ds @ takeWhile is_digit rest"
    using assms(5) by (simp add: list_all_iff takeWhile_append2)
  have dd: "dropWhile is_digit (ds @ rest) = dropWhile is_digit rest"
    using assms(5) by (simp add: list_all_iff dropWhile_append2)
  show ?thesis
    unfolding match_pattern_def t dr using assms(1,4) by (simp add: sp td dd)
qed

lemma findall_occurs: "findall s \<noteq> [] \<Longrightarrow> pattern_occurs s"
proof (induction s rule: findall.induct)
  case (1 s)
  show ?case
  proof (cases "match_pattern s")
    case None
    with "1.prems" have ne: "s \<noteq> []" and "findall (tl s) \<noteq> []"
      by (auto simp: findall.simps [of s] split: if_splits)
    with "1.IH"(1) None have "pattern_occurs (tl s)" by simp
    then obtain b l ws ds r where "tl s = b @ l @ 0x3A # ws @ ds @ r"
      and *: "l \<noteq> []" "0x3A \<notin> set l" "list_all is_space ws" "ds \<noteq> []" "list_all is_digit ds"
      unfolding pattern_occurs_def by blast
    with ne have "s = (hd s # b) @ l @ 0x3A # ws @ ds @ r"
      by (cases s) auto
    with * show ?thesis unfolding pattern_occurs_def by blast
  next
    case (Some a)
    obtain l ds r where a: "a = ((l, ds), r)" by (cases a) auto
    from match_pattern_Some [OF Some [unfolded a]] obtain ws where
      "s = [] @ l @ 0x3A # ws @ ds @ r"
      and *: "l \<noteq> []" "0x3A \<notin> set l" "list_all is_space ws" "ds \<noteq> []" "list_all is_digit ds"
      by auto
    then show ?thesis unfolding pattern_occurs_def by blast
  qed
qed

lemma occurs_findall:
  assumes "label \<noteq> []" "0x3A \<notin> set label" "list_all is_space ws" "ds \<noteq> []" "list_all is_digit ds"
  shows "findall (before @ label @ 0x3A # ws @ ds @ rest) \<noteq> []"
proof (induction before)
  case Nil
  have "label @ 0x3A # ws @ ds @ rest \<noteq> []" using assms(1) by simp
  then have "findall (label @ 0x3A # ws @ ds @ rest) =
      (label, ds @ takeWhile is_digit rest) # findall (dropWhile is_digit rest)"
    by (subst findall.simps) (simp add: match_pattern_occurrence [OF assms, of rest])
  then show ?case by simp
next
  case (Cons c before)
  let ?t = "before @ label @ 0x3A # ws @ ds @ rest"
  show ?case
  proof (cases "match_pattern (c # ?t)")
    case None
    then have "findall (c # ?t) = findall ?t"
      by (subst findall.simps) simp
    with Cons show ?thesis by simp
  next
    case (Some a)
    then have "findall (c # ?t) = fst a # findall (snd a)"
      by (subst findall.simps) (simp add: case_prod_beta)
    then show ?thesis by simp
  qed
qed

lemma pattern_occurs_iff: "pattern_occurs s \<longleftrightarrow> findall s \<noteq> []"
  using findall_occurs occurs_findall unfolding pattern_occurs_def by blast

lemma findall_digits: "(label, ds) \<in> set (findall s) \<Longrightarrow> ds \<noteq> [] \<and> list_all is_digit ds"
proof (induction s rule: findall.induct)
  case (1 s)
  show ?case
  proof (cases "match_pattern s")
    case None
    with "1.prems" have "s \<noteq> []" and "(label, ds) \<in> set (findall (tl s))"
      by (auto simp: findall.simps [of s] split: if_splits)
    with "1.IH"(1) None show ?thesis by simp
  next
    case (Some a)
    obtain l d r where a: "a = ((l, d), r)" by (cases a) auto
    from "1.prems" Some a have ne: "s \<noteq> []" and m: "(label, ds) = (l, d) \<or> (label, ds) \<in> set (findall r)"
      by (auto simp: findall.simps [of s] split: if_splits)
    from m show ?thesis
    proof
      assume "(label, ds) = (l, d)"
      with match_pattern_Some [OF Some [unfolded a]] show ?thesis by auto
    next
      assume "(label, ds) \<in> set (findall r)"
      with "1.IH"(2) [OF ne Some [unfolded a] refl] show ?thesis by simp
    qed
  qed
qed

lemma strip_by_digits:
  assumes "\<forall>c. space c \<longrightarrow> \<not> is_digit c" "ds \<noteq> []" "list_all is_digit ds"
  shows "strip_by space ds = ds"
proof -
  have h: "\<not> space (hd ds)"
    using assms by (cases ds) auto
  have l: "\<not> space (last ds)"
    using assms by (auto simp: list_all_iff)
  have "dropWhile space ds = ds"
    using h assms(2) by (cases ds) auto
  moreover have "dropWhile space (rev ds) = rev ds"
    using l assms(2) by (cases "rev ds") (auto simp: last_rev [symmetric] hd_rev)
  ultimately show ?thesis by (simp add: strip_by_def)
qed

lemma grouped_digits_all: "list_all is_digit ds \<Longrightarrow> grouped_digits ds"
  by (induction ds) auto

lemma digit_not_mark:
  "is_digit c \<Longrightarrow> c \<noteq> 0x5F \<and> c \<noteq> 0x2B \<and> c \<noteq> 0x2D"
  using marks_no_digit by auto

lemma py_int_digits:
  assumes "ds \<noteq> []" "list_all is_digit ds"
  shows "py_int lim ds =
           (if too_many_digits lim (length ds) then Inl ValueError else Inr (decimal ds))"
proof -
  have h: "is_digit (hd ds)"
    using assms by (cases ds) auto
  have f: "filter (\<lambda>c. c \<noteq> 0x5F) ds = ds"
    using assms(2) digit_not_mark by (auto simp: list_all_iff filter_id_conv)
  have s: "strip_by int_space ds = ds"
    using strip_by_digits [of int_space ds] assms int_space_is_space space_not_digit by blast
  show ?thesis
    using assms(1) h digit_not_mark [OF h] grouped_digits_all [OF assms(2)]
    by (simp add: py_int_def s f)
qed

lemma chart_rows_digits:
  assumes "\<forall>m\<in>set ms. snd m \<noteq> [] \<and> list_all is_digit (snd m)"
  shows "chart_rows lim ms =
           (if \<exists>m\<in>set ms. too_many_digits lim (length (snd m)) then Inl ValueError
            else Inr (map (\<lambda>(label, ds). (strip label, decimal ds)) ms))"
  using assms
proof (induction ms)
  case Nil
  then show ?case by simp
next
  case (Cons m ms)
  obtain label ds where m: "m = (label, ds)" by (cases m) auto
  from Cons.prems m have d: "ds \<noteq> []" "list_all is_digit ds" by auto
  from Cons have ih: "chart_rows lim ms =
           (if \<exists>m\<in>set ms. too_many_digits lim (length (snd m)) then Inl ValueError
            else Inr (map (\<lambda>(label, ds). (strip label, decimal ds)) ms))" by simp
  show ?case
    unfolding m by (simp add: py_int_digits [OF d] ih)
qed

lemma findall_Nil: "findall [] = []"
  by (simp add: findall.simps)

lemma digit_one: "is_digit 0x31"
  by (simp add: is_digit_def decimal_digit_def digit_zeros_def)

lemma long_run:
  "findall (ascii ''a:'' @ replicate (Suc n) 0x31) = [(ascii ''a'', replicate (Suc n) 0x31)]"
proof -
  have "match_pattern ([0x61] @ 0x3A # [] @ replicate (Suc n) 0x31 @ []) =
     Some (([0x61], replicate (Suc n) 0x31 @ takeWhile is_digit []), dropWhile is_digit [])"
    by (rule match_pattern_occurrence) (simp_all add: list_all_iff digit_one)
  then have "match_pattern (ascii ''a:'' @ replicate (Suc n) 0x31) =
     Some ((ascii ''a'', replicate (Suc n) 0x31), [])"
    by (simp add: ascii_def)
  then show ?thesis
    by (subst findall.simps) (simp add: findall_Nil ascii_def)
qed

lemma length_ascii: "length (ascii s) = length s"
  by (simp add: ascii_def)

text \<open>
  Whitespace and digits outside ASCII: a no-break space (U+00A0) after the colon
  is skipped, and the Arabic-Indic digit three (U+0663) is a digit of value 3.
\<close>

lemma extract_unicode_examples:
  "extract_chart_data max_str_digits [0x41, 0x3A, 0xA0, 0x35] = Some [([0x41], 5)] \<and>
   extract_chart_data max_str_digits [0x41, 0x3A, 0x20, 0x663] = Some [([0x41], 3)]"
  by (simp add: eval_defs)

subsection \<open>The example with two categories\<close>

text \<open>
  C1, as stated: for the text \<open>Category A: 71, Category B: 5\<close> the extractor returns
  the two rows \<open>("Category A", 71)\<close> and \<open>("Category B", 5)\<close>. The code does not: after
  the first match the scan goes on at the comma, and the first group of the second
  match is everything from there to the colon, so the second label is
  \<open>, Category B\<close>. The check is made with the interpreter's default digit limit.
\<close>

theorem extract_two_categories_counterexample:
  "extract_chart_data default_max_str_digits (ascii ''Category A: 71, Category B: 5'')
     \<noteq> Some [(ascii ''Category A'', 71), (ascii ''Category B'', 5)]"
  by (simp add: eval_defs)

text \<open>
  C1, amended: for the text \<open>Category A: 71, Category B: 5\<close> the extractor returns
  exactly two rows, in the order of appearance: \<open>("Category A", 71)\<close>, then
  \<open>(", Category B", 5)\<close>. Each label is the text from the end of the match before it
  (or from the start of the text) to its colon, with the whitespace around it
  trimmed; each value is the run of digits read in base 10. This holds whatever the
  digit limit of the interpreter is.
\<close>

theorem extract_two_categories:
  "extract_chart_data max_str_digits (ascii ''Category A: 71, Category B: 5'')
     = Some [(ascii ''Category A'', 71), (ascii '', Category B'', 5)]"
  by (simp add: eval_defs)

subsection \<open>No occurrence of the pattern\<close>

text \<open>
  C8: for every text in which the pattern (characters other than a colon, a colon,
  optional whitespace, one or more digits) does not occur, the extractor returns
  null; in particular for \<open>no numbers here\<close> and for \<open>Bad: abc\<close>. Whitespace and digits
  are those of Python's \<open>\s\<close> and \<open>\d\<close> on a \<open>str\<close>.
\<close>

theorem extract_no_occurrence:
  "(\<not> pattern_occurs text \<longrightarrow> extract_chart_data max_str_digits text = None) \<and>
   extract_chart_data max_str_digits (ascii ''no numbers here'') = None \<and>
   extract_chart_data max_str_digits (ascii ''Bad: abc'') = None"
proof -
  have "extract_chart_data max_str_digits text = None" if "\<not> pattern_occurs text"
    using that by (simp add: pattern_occurs_iff extract_chart_data_def)
  moreover have "extract_chart_data max_str_digits (ascii ''no numbers here'') = None"
    by (simp add: eval_defs)
  moreover have "extract_chart_data max_str_digits (ascii ''Bad: abc'') = None"
    by (simp add: eval_defs)
  ultimately show ?thesis by blast
qed

theorem extract_no_occurrence_witness:
  "\<not> pattern_occurs (ascii ''Bad: abc'') \<and>
   extract_chart_data default_max_str_digits (ascii ''Bad: abc'') = None"
proof -
  have "findall (ascii ''Bad: abc'') = []"
    by (simp add: eval_defs)
  then have h: "\<not> pattern_occurs (ascii ''Bad: abc'')"
    by (simp add: pattern_occurs_iff)
  with extract_no_occurrence [of "ascii ''Bad: abc''" default_max_str_digits] show ?thesis
    by blast
qed

subsection \<open>The guarded conversion\<close>

text \<open>
  C9, as stated: the branch for a failed conversion cannot be reached, since every
  captured value is a run of digits and \<open>int\<close> always succeeds on one. With the
  default digit limit of the interpreter it can: for the text \<open>a:\<close> followed by 4301
  digits \<open>1\<close> the pattern matches, \<open>int\<close> raises \<open>ValueError\<close> on the captured value, and
  the extractor returns null.
\<close>

theorem conversion_fails_counterexample:
  "findall (ascii ''a:'' @ replicate 4301 0x31) = [(ascii ''a'', replicate 4301 0x31)] \<and>
   py_int default_max_str_digits (replicate 4301 0x31) = Inl ValueError \<and>
   extract_chart_data default_max_str_digits (ascii ''a:'' @ replicate 4301 0x31) = None"
proof -
  have f: "findall (ascii ''a:'' @ replicate 4301 0x31) = [(ascii ''a'', replicate 4301 0x31)]"
    using long_run [of 4300] by simp
  have p: "py_int default_max_str_digits (replicate 4301 0x31) = Inl ValueError"
    using py_int_digits [of "replicate 4301 0x31" default_max_str_digits] digit_one
    by (simp add: list_all_iff too_many_digits_def default_max_str_digits_def)
  show ?thesis
    using f p by (simp add: extract_chart_data_def)
qed

text \<open>
  C9, amended: for every text, every captured value is a run of one or more decimal
  digits (of any script), so the conversion of a captured value fails only when the
  run has more digits than the interpreter's limit for \<open>int\<close> (more than 640 digits
  and more than a limit that is set, 4300 by default). When a conversion fails the
  whole extraction returns null, never a part of the rows; otherwise, when there is
  a match, it returns one row for every match, in order.
\<close>

theorem conversion_guarded:
  "(\<forall>m\<in>set (findall text). snd m \<noteq> [] \<and> list_all is_digit (snd m)) \<and>
   extract_chart_data max_str_digits text =
     (if findall text = [] \<or>
         (\<exists>m\<in>set (findall text). too_many_digits max_str_digits (length (snd m)))
      then None
      else Some (map (\<lambda>(label, ds). (strip label, decimal ds)) (findall text)))"
proof -
  have a: "\<forall>m\<in>set (findall text). snd m \<noteq> [] \<and> list_all is_digit (snd m)"
    using findall_digits by (metis prod.collapse)
  have "extract_chart_data max_str_digits text =
     (if findall text = [] \<or>
         (\<exists>m\<in>set (findall text). too_many_digits max_str_digits (length (snd m)))
      then None
      else Some (map (\<lambda>(label, ds). (strip label, decimal ds)) (findall text)))"
    unfolding extract_chart_data_def Let_def chart_rows_digits [OF a] by simp
  with a show ?thesis by simp
qed

theorem conversion_guarded_witness:
  "findall (ascii ''x: 12, y:'' @ [0xA0, 0x660, 0x37]) =
     [(ascii ''x'', ascii ''12''), (ascii '', y'', [0x660, 0x37])] \<and>
   list_all (\<lambda>m. snd m \<noteq> [] \<and> list_all is_digit (snd m))
     (findall (ascii ''x: 12, y:'' @ [0xA0, 0x660, 0x37])) \<and>
   extract_chart_data default_max_str_digits (ascii ''x: 12, y:'' @ [0xA0, 0x660, 0x37]) =
     Some [(ascii ''x'', 12), (ascii '', y'', 7)]"
proof -
  have f: "findall (ascii ''x: 12, y:'' @ [0xA0, 0x660, 0x37]) =
     [(ascii ''x'', ascii ''12''), (ascii '', y'', [0x660, 0x37])]"
    by (simp add: eval_defs)
  have s: "strip (ascii ''x'') = ascii ''x'' \<and> strip (ascii '', y'') = ascii '', y'' \<and>
           decimal (ascii ''12'') = 12 \<and> decimal [0x660, 0x37] = 7"
    by (simp add: eval_defs)
  show ?thesis
    using conversion_guarded [of "ascii ''x: 12, y:'' @ [0xA0, 0x660, 0x37]" default_max_str_digits]
    by (simp add: f s list_all_iff too_many_digits_def length_ascii)
qed

section \<open>The assistant gateway and the session: what a call sends and returns\<close>

lemma replay_requests:
  "replay tid msgs s =
     s\<lparr>requests := requests s @
        map (\<lambda>m. MessagesCreate tid ''user'' (content m)) (filter (\<lambda>m. role m = ''user'') msgs)\<rparr>"
  by (induction msgs arbitrary: s) (simp_all add: send_def)

lemma ensure_thread_existing:
  "thread_id s = Some tid \<Longrightarrow> ensure_thread cl aid svc s = (tid, s)"
  by (simp add: ensure_thread_def)

lemma ensure_thread_new:
  "thread_id s = None \<Longrightarrow>
   ensure_thread cl aid svc s =
     (new_thread svc,
      s\<lparr>thread_id := Some (new_thread svc),
        requests := requests s @ ThreadsCreate #
          map (\<lambda>m. MessagesCreate (new_thread svc) ''user'' (content m))
            (filter (\<lambda>m. role m = ''user'') (history s))\<rparr>)"
  by (cases "messages s") (simp_all add: ensure_thread_def Let_def history_def send_def replay_requests)


lemma poll_reaches:
  "\<forall>j<n. \<not> terminal (run_status svc (k + j)) \<Longrightarrow> terminal (run_status svc (k + n)) \<Longrightarrow>
   poll svc tid k s =
     Some (run_status svc (k + n),
           s\<lparr>requests := requests s @ replicate n (RunsRetrieve tid (new_run svc))\<rparr>)"
proof (induction n arbitrary: k s)
  case 0
  then show ?case by (subst poll.simps) simp
next
  case (Suc n)
  from Suc.prems(1) have nt: "\<not> terminal (run_status svc k)" by force
  from Suc.prems(1) have "\<forall>j<n. \<not> terminal (run_status svc (Suc k + j))" by auto
  moreover from Suc.prems(2) have "terminal (run_status svc (Suc k + n))" by simp
  ultimately have "poll svc tid (Suc k) (send (RunsRetrieve tid (new_run svc)) s) =
     Some (run_status svc (Suc k + n),
           (send (RunsRetrieve tid (new_run svc)) s)
             \<lparr>requests := requests (send (RunsRetrieve tid (new_run svc)) s) @
                replicate n (RunsRetrieve tid (new_run svc))\<rparr>)"
    by (rule Suc.IH)
  with nt show ?case
    by (subst poll.simps) (simp add: send_def replicate_app_Cons_same)
qed


lemma poll_Some:
  assumes "poll svc tid k s = Some y"
  shows "\<exists>n. (\<forall>j<n. \<not> terminal (run_status svc (k + j))) \<and> fst y = run_status svc (k + n) \<and>
       terminal (fst y) \<and>
       snd y = s\<lparr>requests := requests s @ replicate n (RunsRetrieve tid (new_run svc))\<rparr>"
proof (rule poll.raw_induct [where P = "\<lambda>svc tid k s y.
    \<exists>n. (\<forall>j<n. \<not> terminal (run_status svc (k + j))) \<and> fst y = run_status svc (k + n) \<and>
       terminal (fst y) \<and>
       snd y = s\<lparr>requests := requests s @ replicate n (RunsRetrieve tid (new_run svc))\<rparr>", OF _ assms])
  fix p :: "service \<Rightarrow> string \<Rightarrow> nat \<Rightarrow> state \<Rightarrow> (string \<times> state) option"
    and svc tid k s y
  assume IH: "\<And>svc tid k s y. p svc tid k s = Some y \<Longrightarrow>
    \<exists>n. (\<forall>j<n. \<not> terminal (run_status svc (k + j))) \<and> fst y = run_status svc (k + n) \<and>
       terminal (fst y) \<and>
       snd y = s\<lparr>requests := requests s @ replicate n (RunsRetrieve tid (new_run svc))\<rparr>"
    and step: "(if terminal (run_status svc k) then Some (run_status svc k, s)
      else p svc tid (Suc k) (send (RunsRetrieve tid (new_run svc)) s)) = Some y"
  show "\<exists>n. (\<forall>j<n. \<not> terminal (run_status svc (k + j))) \<and> fst y = run_status svc (k + n) \<and>
       terminal (fst y) \<and>
       snd y = s\<lparr>requests := requests s @ replicate n (RunsRetrieve tid (new_run svc))\<rparr>"
  proof (cases "terminal (run_status svc k)")
    case True
    with step have "y = (run_status svc k, s)" by simp
    with True have "(\<forall>j<(0::nat). \<not> terminal (run_status svc (k + j))) \<and>
        fst y = run_status svc (k + 0) \<and> terminal (fst y) \<and>
        snd y = s\<lparr>requests := requests s @ replicate 0 (RunsRetrieve tid (new_run svc))\<rparr>"
      by simp
    then show ?thesis by blast
  next
    case False
    let ?s1 = "send (RunsRetrieve tid (new_run svc)) s"
    from False step have "p svc tid (Suc k) ?s1 = Some y" by simp
    from IH [OF this] obtain n where
      n: "\<forall>j<n. \<not> terminal (run_status svc (Suc k + j))"
         "fst y = run_status svc (Suc k + n)" "terminal (fst y)"
         "snd y = ?s1\<lparr>requests := requests ?s1 @ replicate n (RunsRetrieve tid (new_run svc))\<rparr>"
      by blast
    have "\<forall>j<Suc n. \<not> terminal (run_status svc (k + j))"
    proof (intro allI impI)
      fix j assume "j < Suc n"
      then show "\<not> terminal (run_status svc (k + j))"
        using False n(1) by (cases j) auto
    qed
    moreover have "fst y = run_status svc (k + Suc n)" using n(2) by simp
    moreover have "snd y = s\<lparr>requests := requests s @ replicate (Suc n) (RunsRetrieve tid (new_run svc))\<rparr>"
      using n(4) by (simp add: send_def replicate_app_Cons_same)
    ultimately show ?thesis using n(3) by blast
  qed
qed




lemma poll_first_terminal:
  assumes "\<forall>j<n. \<not> terminal (run_status svc j)" "terminal (run_status svc n)"
  shows "poll svc tid 0 s =
     Some (run_status svc n, s\<lparr>requests := requests s @ replicate n (RunsRetrieve tid (new_run svc))\<rparr>)"
  using poll_reaches [of n svc 0 tid s] assms by simp

lemma app_not_completed:
  assumes "api_key = Some key" "key \<noteq> []"
    and "\<forall>j<n. \<not> terminal (run_status svc j)" "terminal (run_status svc n)"
    and "run_status svc n \<noteq> ''completed''"
  shows "\<exists>s'. call_assistant_app api_key svc user_text s =
           Some (Inr (status_message (run_status svc n)), s')"
proof -
  obtain tid s1 where e: "ensure_thread (OpenAI key) assistant_id svc s = (tid, s1)"
    by (cases "ensure_thread (OpenAI key) assistant_id svc s") auto
  show ?thesis
    using assms(1,2,5) e
    by (simp add: call_assistant_app_def get_client_def Let_def poll_first_terminal [OF assms(3,4)])
qed

lemma chart_not_completed:
  assumes "api_key = Some key" "key \<noteq> []"
    and "\<forall>j<n. \<not> terminal (run_status svc j)" "terminal (run_status svc n)"
    and "run_status svc n \<noteq> ''completed''"
  shows "\<exists>s'. call_assistant_chart api_key svc user_text s =
           Some (Inr (status_message (run_status svc n)), s')"
proof -
  obtain tid s1 where e: "ensure_thread (OpenAI key) assistant_id svc s = (tid, s1)"
    by (cases "ensure_thread (OpenAI key) assistant_id svc s") auto
  show ?thesis
    using assms(1,2,5) e
    by (simp add: call_assistant_chart_def get_client_def Let_def poll_first_terminal [OF assms(3,4)])
qed

lemma terminal_completed: "terminal ''completed''"
  by (simp add: terminal_def)

lemma chart_completed:
  assumes "api_key = Some key" "key \<noteq> []"
    and "\<forall>j<n. \<not> terminal (run_status svc j)" "run_status svc n = ''completed''"
    and "latest svc = blocks # older"
  shows "\<exists>s'. call_assistant_chart api_key svc user_text s =
           Some (Inr (join '' '' (collect_parts blocks [])), s')"
proof -
  obtain tid s1 where e: "ensure_thread (OpenAI key) assistant_id svc s = (tid, s1)"
    by (cases "ensure_thread (OpenAI key) assistant_id svc s") auto
  have t: "terminal (run_status svc n)"
    using assms(4) terminal_completed by simp
  show ?thesis
    using assms(1,2,4,5) e
    by (simp add: call_assistant_chart_def get_client_def Let_def poll_first_terminal [OF assms(3) t])
qed

lemma app_completed:
  assumes "api_key = Some key" "key \<noteq> []"
    and "\<forall>j<n. \<not> terminal (run_status svc j)" "run_status svc n = ''completed''"
    and "latest svc = (TextContentBlock v # bs) # older"
  shows "\<exists>s'. call_assistant_app api_key svc user_text s = Some (Inr v, s')"
proof -
  obtain tid s1 where e: "ensure_thread (OpenAI key) assistant_id svc s = (tid, s1)"
    by (cases "ensure_thread (OpenAI key) assistant_id svc s") auto
  have t: "terminal (run_status svc n)"
    using assms(4) terminal_completed by simp
  show ?thesis
    using assms(1,2,4,5) e
    by (simp add: call_assistant_app_def get_client_def Let_def poll_first_terminal [OF assms(3) t])
qed

lemma collect_parts_map_filter:
  "collect_parts blocks parts =
     parts @ List.map_filter
       (\<lambda>b. case b of TextContentBlock v \<Rightarrow> Some v
                     | ImageFileContentBlock \<Rightarrow> Some ''[Image]''
                     | _ \<Rightarrow> None) blocks"
  by (induction blocks parts rule: collect_parts.induct) (simp_all add: List.map_filter_simps)

lemma app_missing_key:
  "api_key = None \<or> api_key = Some [] \<Longrightarrow>
   call_assistant_app api_key svc user_text s =
     Some (Inr [], s\<lparr>errors_shown := errors_shown s @ [configuration_error]\<rparr>)"
  by (auto simp: call_assistant_app_def get_client_def)

lemma chart_missing_key:
  "api_key = None \<or> api_key = Some [] \<Longrightarrow>
   call_assistant_chart api_key svc user_text s =
     Some (Inr [], s\<lparr>errors_shown := errors_shown s @ [configuration_error]\<rparr>)"
  by (auto simp: call_assistant_chart_def get_client_def)






lemma script_app_missing_key:
  assumes "api_key = None \<or> api_key = Some []" "user_input \<noteq> []"
  shows "script_app api_key svc (Some user_input) s =
     Some (None, s\<lparr>messages := Some (history s @
                      [\<lparr>role = ''user'', content = user_input\<rparr>,
                       \<lparr>role = ''assistant'', content = []\<rparr>]),
                    errors_shown := errors_shown s @ [configuration_error]\<rparr>)"
  using assms(2)
  by (cases "messages s")
     (simp_all add: script_app_def script_def append_message_def history_def
        app_missing_key [OF assms(1)])

lemma script_chart_missing_key:
  assumes "api_key = None \<or> api_key = Some []" "user_input \<noteq> []"
  shows "script_chart api_key svc (Some user_input) s =
     Some (None, s\<lparr>messages := Some (history s @
                      [\<lparr>role = ''user'', content = user_input\<rparr>,
                       \<lparr>role = ''assistant'', content = []\<rparr>]),
                    errors_shown := errors_shown s @ [configuration_error]\<rparr>)"
  using assms(2)
  by (cases "messages s")
     (simp_all add: script_chart_def script_def append_message_def history_def
        chart_missing_key [OF assms(1)])

lemma sublist_status_message: "sublist status (status_message status)"
proof -
  have "status_message status =
      ([CHR 0xE2, CHR 0x9A, CHR 0xA0, CHR 0xEF, CHR 0xB8, CHR 0x8F] @
       '' Assistant run ended with status **'') @ status @ ''**.''"
    by (simp add: status_message_def)
  then show ?thesis unfolding sublist_def by blast
qed

lemma sublist_enhanced_prompt: "sublist user_text (enhanced_prompt user_text)"
proof -
  obtain ss where "enhanced_prompt user_text = ''\<newline>    '' @ user_text @ ss"
    by (simp add: enhanced_prompt_def)
  then show ?thesis unfolding sublist_def by blast
qed

lemma enhanced_prompt_differs: "enhanced_prompt user_text \<noteq> user_text"
proof
  assume "enhanced_prompt user_text = user_text"
  then have "length (enhanced_prompt user_text) = length user_text" by simp
  then show False by (simp add: enhanced_prompt_def)
qed

text \<open>The calls watched while they run, and the calls that return.\<close>

lemma poll_within_requests:
  "\<exists>n\<le>looks. snd (poll_within svc tid looks k s) =
      s\<lparr>requests := requests s @ replicate n (RunsRetrieve tid (new_run svc))\<rparr>"
proof (induction looks arbitrary: k s)
  case 0
  have "snd (poll_within svc tid 0 k s) =
      s\<lparr>requests := requests s @ replicate 0 (RunsRetrieve tid (new_run svc))\<rparr>"
    by simp
  then show ?case by blast
next
  case (Suc looks)
  show ?case
  proof (cases "terminal (run_status svc k)")
    case True
    then have "snd (poll_within svc tid (Suc looks) k s) =
      s\<lparr>requests := requests s @ replicate 0 (RunsRetrieve tid (new_run svc))\<rparr>"
      by simp
    then show ?thesis by blast
  next
    case False
    let ?s1 = "send (RunsRetrieve tid (new_run svc)) s"
    from Suc.IH [of "Suc k" ?s1] obtain n where
      n: "n \<le> looks" "snd (poll_within svc tid looks (Suc k) ?s1) =
        ?s1\<lparr>requests := requests ?s1 @ replicate n (RunsRetrieve tid (new_run svc))\<rparr>"
      by blast
    have "snd (poll_within svc tid (Suc looks) k s) =
      s\<lparr>requests := requests s @ replicate (Suc n) (RunsRetrieve tid (new_run svc))\<rparr>"
      using False n(2) by (simp add: send_def replicate_app_Cons_same)
    with n(1) show ?thesis by (metis Suc_le_mono)
  qed
qed

lemma poll_within_reaches:
  "\<forall>j<n. \<not> terminal (run_status svc (k + j)) \<Longrightarrow> terminal (run_status svc (k + n)) \<Longrightarrow>
   poll_within svc tid n k s =
     (Some (run_status svc (k + n)),
      s\<lparr>requests := requests s @ replicate n (RunsRetrieve tid (new_run svc))\<rparr>)"
proof (induction n arbitrary: k s)
  case 0
  then show ?case by simp
next
  case (Suc n)
  from Suc.prems(1) have nt: "\<not> terminal (run_status svc k)" by force
  from Suc.prems(1) have "\<forall>j<n. \<not> terminal (run_status svc (Suc k + j))" by auto
  moreover from Suc.prems(2) have "terminal (run_status svc (Suc k + n))" by simp
  ultimately have "poll_within svc tid n (Suc k) (send (RunsRetrieve tid (new_run svc)) s) =
     (Some (run_status svc (Suc k + n)),
      (send (RunsRetrieve tid (new_run svc)) s)
        \<lparr>requests := requests (send (RunsRetrieve tid (new_run svc)) s) @
            replicate n (RunsRetrieve tid (new_run svc))\<rparr>)"
    by (rule Suc.IH)
  with nt show ?case
    by (simp add: send_def replicate_app_Cons_same)
qed

lemma poll_within_poll:
  "poll_within svc tid looks k s = (Some status, s') \<Longrightarrow> poll svc tid k s = Some (status, s')"
proof (induction looks arbitrary: k s)
  case 0
  then show ?case by (subst poll.simps) (simp split: if_splits)
next
  case (Suc looks)
  show ?case
  proof (cases "terminal (run_status svc k)")
    case True
    with Suc.prems show ?thesis by (subst poll.simps) simp
  next
    case False
    with Suc.prems have "poll_within svc tid looks (Suc k) (send (RunsRetrieve tid (new_run svc)) s)
        = (Some status, s')" by simp
    from Suc.IH [OF this] False show ?thesis by (subst poll.simps) simp
  qed
qed

lemma poll_link:
  "poll svc tid k s = Some (status, s') \<longleftrightarrow>
     (\<exists>looks. poll_within svc tid looks k s = (Some status, s'))"
proof
  assume p: "poll svc tid k s = Some (status, s')"
  from poll_Some [OF p] obtain n where
    "\<forall>j<n. \<not> terminal (run_status svc (k + j))" "status = run_status svc (k + n)"
    "terminal status"
    "s' = s\<lparr>requests := requests s @ replicate n (RunsRetrieve tid (new_run svc))\<rparr>"
    by auto
  with poll_within_reaches [of n svc k tid s]
  have "poll_within svc tid n k s = (Some status, s')" by simp
  then show "\<exists>looks. poll_within svc tid looks k s = (Some status, s')" by blast
next
  assume "\<exists>looks. poll_within svc tid looks k s = (Some status, s')"
  then show "poll svc tid k s = Some (status, s')" using poll_within_poll by blast
qed

lemma app_link:
  "call_assistant_app api_key svc user_text s = Some (r, s') \<longleftrightarrow>
     (\<exists>looks. call_assistant_app_within looks api_key svc user_text s = (Some r, s'))"
proof (cases "get_client api_key s")
  case (Pair c s0)
  show ?thesis
  proof (cases c)
    case None
    with Pair show ?thesis
      by (auto simp: call_assistant_app_def call_assistant_app_within_def)
  next
    case (Some cl)
    obtain tid s1 where e: "ensure_thread cl assistant_id svc s0 = (tid, s1)"
      by (cases "ensure_thread cl assistant_id svc s0") auto
    let ?s3 = "send (RunsCreate tid assistant_id) (send (MessagesCreate tid ''user'' user_text) s1)"
    show ?thesis
    proof
      assume c: "call_assistant_app api_key svc user_text s = Some (r, s')"
      with Pair Some e obtain status s4 where p: "poll svc tid 0 ?s3 = Some (status, s4)"
        by (auto simp: call_assistant_app_def split: option.splits)
      then obtain looks where w: "poll_within svc tid looks 0 ?s3 = (Some status, s4)"
        using poll_link by blast
      have "call_assistant_app_within looks api_key svc user_text s = (Some r, s')"
        using c Pair Some e p w
        by (auto simp: call_assistant_app_def call_assistant_app_within_def Let_def
            split: if_splits list.splits content_block.splits)
      then show "\<exists>looks. call_assistant_app_within looks api_key svc user_text s = (Some r, s')"
        by blast
    next
      assume "\<exists>looks. call_assistant_app_within looks api_key svc user_text s = (Some r, s')"
      then obtain looks where
        c: "call_assistant_app_within looks api_key svc user_text s = (Some r, s')" by blast
      with Pair Some e obtain status s4 where w: "poll_within svc tid looks 0 ?s3 = (Some status, s4)"
        by (auto simp: call_assistant_app_within_def split: option.splits prod.splits)
      then have p: "poll svc tid 0 ?s3 = Some (status, s4)"
        using poll_link by blast
      show "call_assistant_app api_key svc user_text s = Some (r, s')"
        using c Pair Some e p w
        by (auto simp: call_assistant_app_def call_assistant_app_within_def Let_def
            split: if_splits list.splits content_block.splits)
    qed
  qed
qed

lemma chart_link:
  "call_assistant_chart api_key svc user_text s = Some (r, s') \<longleftrightarrow>
     (\<exists>looks. call_assistant_chart_within looks api_key svc user_text s = (Some r, s'))"
proof (cases "get_client api_key s")
  case (Pair c s0)
  show ?thesis
  proof (cases c)
    case None
    with Pair show ?thesis
      by (auto simp: call_assistant_chart_def call_assistant_chart_within_def)
  next
    case (Some cl)
    obtain tid s1 where e: "ensure_thread cl assistant_id svc s0 = (tid, s1)"
      by (cases "ensure_thread cl assistant_id svc s0") auto
    let ?s3 = "send (RunsCreate tid assistant_id) (send (MessagesCreate tid ''user'' (enhanced_prompt user_text)) s1)"
    show ?thesis
    proof
      assume c: "call_assistant_chart api_key svc user_text s = Some (r, s')"
      with Pair Some e obtain status s4 where p: "poll svc tid 0 ?s3 = Some (status, s4)"
        by (auto simp: call_assistant_chart_def split: option.splits)
      then obtain looks where w: "poll_within svc tid looks 0 ?s3 = (Some status, s4)"
        using poll_link by blast
      have "call_assistant_chart_within looks api_key svc user_text s = (Some r, s')"
        using c Pair Some e p w
        by (auto simp: call_assistant_chart_def call_assistant_chart_within_def Let_def
            split: if_splits list.splits)
      then show "\<exists>looks. call_assistant_chart_within looks api_key svc user_text s = (Some r, s')"
        by blast
    next
      assume "\<exists>looks. call_assistant_chart_within looks api_key svc user_text s = (Some r, s')"
      then obtain looks where
        c: "call_assistant_chart_within looks api_key svc user_text s = (Some r, s')" by blast
      with Pair Some e obtain status s4 where w: "poll_within svc tid looks 0 ?s3 = (Some status, s4)"
        by (auto simp: call_assistant_chart_within_def split: option.splits prod.splits)
      then have p: "poll svc tid 0 ?s3 = Some (status, s4)"
        using poll_link by blast
      show "call_assistant_chart api_key svc user_text s = Some (r, s')"
        using c Pair Some e p w
        by (auto simp: call_assistant_chart_def call_assistant_chart_within_def Let_def
            split: if_splits list.splits)
    qed
  qed
qed

lemma app_within_requests:
  assumes "api_key = Some key" "key \<noteq> []"
  shows "\<exists>n tail. n \<le> looks \<and>
     requests (snd (call_assistant_app_within looks api_key svc user_text s)) =
       requests (snd (ensure_thread (OpenAI key) assistant_id svc s)) @
       [MessagesCreate (fst (ensure_thread (OpenAI key) assistant_id svc s)) ''user'' user_text,
        RunsCreate (fst (ensure_thread (OpenAI key) assistant_id svc s)) assistant_id] @
       replicate n (RunsRetrieve (fst (ensure_thread (OpenAI key) assistant_id svc s)) (new_run svc)) @
       tail \<and>
     (tail = [] \<or> tail = [MessagesList (fst (ensure_thread (OpenAI key) assistant_id svc s))])"
proof -
  obtain tid s1 where e: "ensure_thread (OpenAI key) assistant_id svc s = (tid, s1)"
    by (cases "ensure_thread (OpenAI key) assistant_id svc s") auto
  let ?s3 = "send (RunsCreate tid assistant_id) (send (MessagesCreate tid ''user'' user_text) s1)"
  obtain st s4 where w: "poll_within svc tid looks 0 ?s3 = (st, s4)"
    by (cases "poll_within svc tid looks 0 ?s3") auto
  from poll_within_requests [of looks svc tid 0 ?s3] w obtain n where
    n: "n \<le> looks"
       "s4 = ?s3\<lparr>requests := requests ?s3 @ replicate n (RunsRetrieve tid (new_run svc))\<rparr>"
    by auto
  let ?sent = "requests s1 @ [MessagesCreate tid ''user'' user_text, RunsCreate tid assistant_id] @
       replicate n (RunsRetrieve tid (new_run svc))"
  have r4: "requests s4 = ?sent"
    using n(2) by (simp add: send_def)
  have "requests (snd (call_assistant_app_within looks api_key svc user_text s)) = ?sent @ [] \<or>
        requests (snd (call_assistant_app_within looks api_key svc user_text s)) =
          ?sent @ [MessagesList tid]"
    using assms e w r4
    by (auto simp: call_assistant_app_within_def get_client_def send_def Let_def
        split: option.splits list.splits content_block.splits)
  then obtain tail where
    "requests (snd (call_assistant_app_within looks api_key svc user_text s)) = ?sent @ tail"
    "tail = [] \<or> tail = [MessagesList tid]"
    by blast
  with n(1) e show ?thesis by auto
qed

lemma chart_within_requests:
  assumes "api_key = Some key" "key \<noteq> []"
  shows "\<exists>n tail. n \<le> looks \<and>
     requests (snd (call_assistant_chart_within looks api_key svc user_text s)) =
       requests (snd (ensure_thread (OpenAI key) assistant_id svc s)) @
       [MessagesCreate (fst (ensure_thread (OpenAI key) assistant_id svc s)) ''user'' (enhanced_prompt user_text),
        RunsCreate (fst (ensure_thread (OpenAI key) assistant_id svc s)) assistant_id] @
       replicate n (RunsRetrieve (fst (ensure_thread (OpenAI key) assistant_id svc s)) (new_run svc)) @
       tail \<and>
     (tail = [] \<or> tail = [MessagesList (fst (ensure_thread (OpenAI key) assistant_id svc s))])"
proof -
  obtain tid s1 where e: "ensure_thread (OpenAI key) assistant_id svc s = (tid, s1)"
    by (cases "ensure_thread (OpenAI key) assistant_id svc s") auto
  let ?s3 = "send (RunsCreate tid assistant_id) (send (MessagesCreate tid ''user'' (enhanced_prompt user_text)) s1)"
  obtain st s4 where w: "poll_within svc tid looks 0 ?s3 = (st, s4)"
    by (cases "poll_within svc tid looks 0 ?s3") auto
  from poll_within_requests [of looks svc tid 0 ?s3] w obtain n where
    n: "n \<le> looks"
       "s4 = ?s3\<lparr>requests := requests ?s3 @ replicate n (RunsRetrieve tid (new_run svc))\<rparr>"
    by auto
  let ?sent = "requests s1 @ [MessagesCreate tid ''user'' (enhanced_prompt user_text), RunsCreate tid assistant_id] @
       replicate n (RunsRetrieve tid (new_run svc))"
  have r4: "requests s4 = ?sent"
    using n(2) by (simp add: send_def)
  have "requests (snd (call_assistant_chart_within looks api_key svc user_text s)) = ?sent @ [] \<or>
        requests (snd (call_assistant_chart_within looks api_key svc user_text s)) =
          ?sent @ [MessagesList tid]"
    using assms e w r4
    by (auto simp: call_assistant_chart_within_def get_client_def send_def Let_def
        split: option.splits list.splits)
  then obtain tail where
    "requests (snd (call_assistant_chart_within looks api_key svc user_text s)) = ?sent @ tail"
    "tail = [] \<or> tail = [MessagesList tid]"
    by blast
  with n(1) e show ?thesis by auto
qed

subsection \<open>The user turn\<close>

text \<open>
  C2, as stated: for every input text, \<open>call_assistant\<close> submits exactly the given
  text, unmodified, as the user turn before it starts the run. The chart variant
  does not: with the thread \<open>thread_0\<close> at hand and the text \<open>hi\<close>, the only message
  it creates holds \<open>enhanced_prompt\<close> of the text, which is not the text. And with
  no API key neither variant submits anything.
\<close>

theorem user_turn_verbatim_counterexample:
  "map_option (requests \<circ> snd)
     (call_assistant_chart (Some ''key'')
        \<lparr>new_thread = ''thread_1'', new_run = ''run_1'',
          run_status = (\<lambda>k. ''completed''), latest = []\<rparr>
        ''hi''
        \<lparr>thread_id = Some ''thread_0'', messages = Some [], requests = [], errors_shown = []\<rparr>)
     = Some [MessagesCreate ''thread_0'' ''user'' (enhanced_prompt ''hi''),
             RunsCreate ''thread_0'' assistant_id,
             MessagesList ''thread_0''] \<and>
   enhanced_prompt ''hi'' \<noteq> ''hi'' \<and>
   map_option (requests \<circ> snd)
     (call_assistant_app None
        \<lparr>new_thread = ''thread_1'', new_run = ''run_1'',
          run_status = (\<lambda>k. ''completed''), latest = []\<rparr>
        ''hi''
        \<lparr>thread_id = Some ''thread_0'', messages = Some [], requests = [], errors_shown = []\<rparr>)
     = Some []"
  by (simp add: call_assistant_chart_def call_assistant_app_def get_client_def ensure_thread_def
      send_def poll.simps terminal_def enhanced_prompt_differs)

text \<open>
  C2, amended: with an API key configured, \<open>call_assistant\<close> submits the user turn on
  the conversation handle and starts the run right after it, whether or not the
  run ever reaches a terminal status: however long the call is watched, what it
  has sent after ensuring the thread is the user turn, the start of the run, the
  polls so far and at most the listing of the latest message. In app.py the
  content of the user turn is exactly the given text. In chart\_app.py it is the
  f-string \<open>enhanced_prompt\<close>, a fixed template that holds the given text and is never
  equal to it. What a call returns is what it is seen to return when watched long
  enough.
\<close>

theorem user_turn_submitted:
  assumes "api_key = Some key" "key \<noteq> []"
  shows
   "(let e = ensure_thread (OpenAI key) assistant_id svc s in
     (\<exists>n tail. n \<le> looks \<and>
        requests (snd (call_assistant_app_within looks api_key svc user_text s)) =
          requests (snd e) @
          [MessagesCreate (fst e) ''user'' user_text, RunsCreate (fst e) assistant_id] @
          replicate n (RunsRetrieve (fst e) (new_run svc)) @ tail \<and>
        (tail = [] \<or> tail = [MessagesList (fst e)])) \<and>
     (\<exists>n tail. n \<le> looks \<and>
        requests (snd (call_assistant_chart_within looks api_key svc user_text s)) =
          requests (snd e) @
          [MessagesCreate (fst e) ''user'' (enhanced_prompt user_text),
           RunsCreate (fst e) assistant_id] @
          replicate n (RunsRetrieve (fst e) (new_run svc)) @ tail \<and>
        (tail = [] \<or> tail = [MessagesList (fst e)]))) \<and>
    (call_assistant_app api_key svc user_text s = Some (r, s') \<longleftrightarrow>
       (\<exists>looks. call_assistant_app_within looks api_key svc user_text s = (Some r, s'))) \<and>
    (call_assistant_chart api_key svc user_text s = Some (r, s') \<longleftrightarrow>
       (\<exists>looks. call_assistant_chart_within looks api_key svc user_text s = (Some r, s'))) \<and>
    sublist user_text (enhanced_prompt user_text) \<and>
    enhanced_prompt user_text \<noteq> user_text"
  unfolding Let_def
  using app_within_requests [OF assms, of looks svc user_text s]
    chart_within_requests [OF assms, of looks svc user_text s]
    app_link [of api_key svc user_text s r s'] chart_link [of api_key svc user_text s r s']
    sublist_enhanced_prompt [of user_text] enhanced_prompt_differs [of user_text]
  by blast

theorem user_turn_submitted_witness:
  "requests (snd (call_assistant_app_within 5 (Some ''key'')
     \<lparr>new_thread = ''thread_1'', new_run = ''run_1'',
       run_status = (\<lambda>k. ''in_progress''), latest = []\<rparr>
     ''hi''
     \<lparr>thread_id = Some ''thread_0'', messages = Some [], requests = [], errors_shown = []\<rparr>))
   = [MessagesCreate ''thread_0'' ''user'' ''hi'', RunsCreate ''thread_0'' assistant_id] @
     replicate 5 (RunsRetrieve ''thread_0'' ''run_1'') \<and>
   (\<exists>n tail. n \<le> 5 \<and>
      [MessagesCreate ''thread_0'' ''user'' ''hi'', RunsCreate ''thread_0'' assistant_id] @
      replicate 5 (RunsRetrieve ''thread_0'' ''run_1'')
      = [MessagesCreate ''thread_0'' ''user'' ''hi'', RunsCreate ''thread_0'' assistant_id] @
        replicate n (RunsRetrieve ''thread_0'' ''run_1'') @ tail \<and>
      (tail = [] \<or> tail = [MessagesList ''thread_0''])) \<and>
   call_assistant_app (Some ''key'')
     \<lparr>new_thread = ''thread_1'', new_run = ''run_1'',
       run_status = (\<lambda>k. if k < 2 then ''queued'' else ''completed''),
       latest = [[TextContentBlock ''hello'']]\<rparr>
     ''hi''
     \<lparr>thread_id = Some ''thread_0'', messages = Some [], requests = [], errors_shown = []\<rparr>
   = Some (Inr ''hello'',
       \<lparr>thread_id = Some ''thread_0'', messages = Some [],
         requests = [MessagesCreate ''thread_0'' ''user'' ''hi'',
                     RunsCreate ''thread_0'' assistant_id,
                     RunsRetrieve ''thread_0'' ''run_1'', RunsRetrieve ''thread_0'' ''run_1'',
                     MessagesList ''thread_0''],
         errors_shown = []\<rparr>) \<and>
   (\<exists>looks. call_assistant_app_within looks (Some ''key'')
     \<lparr>new_thread = ''thread_1'', new_run = ''run_1'',
       run_status = (\<lambda>k. if k < 2 then ''queued'' else ''completed''),
       latest = [[TextContentBlock ''hello'']]\<rparr>
     ''hi''
     \<lparr>thread_id = Some ''thread_0'', messages = Some [], requests = [], errors_shown = []\<rparr>
   = (Some (Inr ''hello''),
       \<lparr>thread_id = Some ''thread_0'', messages = Some [],
         requests = [MessagesCreate ''thread_0'' ''user'' ''hi'',
                     RunsCreate ''thread_0'' assistant_id,
                     RunsRetrieve ''thread_0'' ''run_1'', RunsRetrieve ''thread_0'' ''run_1'',
                     MessagesList ''thread_0''],
         errors_shown = []\<rparr>))"
proof -
  let ?stuck = "\<lparr>new_thread = ''thread_1'', new_run = ''run_1'',
       run_status = (\<lambda>k. ''in_progress''), latest = []\<rparr>"
  let ?svc = "\<lparr>new_thread = ''thread_1'', new_run = ''run_1'',
       run_status = (\<lambda>k. if k < 2 then ''queued'' else ''completed''),
       latest = [[TextContentBlock ''hello'']]\<rparr>"
  let ?s = "\<lparr>thread_id = Some ''thread_0'', messages = Some [], requests = [], errors_shown = []\<rparr>"
  let ?s1 = "\<lparr>thread_id = Some ''thread_0'', messages = Some [],
         requests = [MessagesCreate ''thread_0'' ''user'' ''hi'',
                     RunsCreate ''thread_0'' assistant_id,
                     RunsRetrieve ''thread_0'' ''run_1'', RunsRetrieve ''thread_0'' ''run_1'',
                     MessagesList ''thread_0''],
         errors_shown = []\<rparr>"
  have k: "Some ''key'' = Some ''key''" "''key'' \<noteq> []" by simp_all
  have w: "requests (snd (call_assistant_app_within 5 (Some ''key'') ?stuck ''hi'' ?s))
      = [MessagesCreate ''thread_0'' ''user'' ''hi'', RunsCreate ''thread_0'' assistant_id] @
        replicate 5 (RunsRetrieve ''thread_0'' ''run_1'')"
    by (simp add: call_assistant_app_within_def get_client_def ensure_thread_def send_def
        terminal_def eval_nat_numeral)
  have c: "call_assistant_app (Some ''key'') ?svc ''hi'' ?s = Some (Inr ''hello'', ?s1)"
    by (simp add: call_assistant_app_def get_client_def ensure_thread_def send_def poll.simps
        terminal_def)
  from user_turn_submitted [OF k, where looks = 5 and svc = ?stuck and s = ?s and user_text = "''hi''"] w
  have a: "\<exists>n tail. n \<le> 5 \<and>
      [MessagesCreate ''thread_0'' ''user'' ''hi'', RunsCreate ''thread_0'' assistant_id] @
      replicate 5 (RunsRetrieve ''thread_0'' ''run_1'')
      = [MessagesCreate ''thread_0'' ''user'' ''hi'', RunsCreate ''thread_0'' assistant_id] @
        replicate n (RunsRetrieve ''thread_0'' ''run_1'') @ tail \<and>
      (tail = [] \<or> tail = [MessagesList ''thread_0''])"
    by (simp add: ensure_thread_def)
  from user_turn_submitted [OF k, where svc = ?svc and s = ?s and user_text = "''hi''"
      and r = "Inr ''hello''" and s' = ?s1] c
  have b: "\<exists>looks. call_assistant_app_within looks (Some ''key'') ?svc ''hi'' ?s
      = (Some (Inr ''hello''), ?s1)"
    by (simp add: Let_def)
  from w a c b show ?thesis by blast
qed

subsection \<open>No API key\<close>

text \<open>
  C3, as stated: with no API key, a submission shows a configuration error, sends
  nothing to the service and leaves the history unchanged. The history does change:
  the submission \<open>hi\<close> to a session with an empty history leaves two messages in it.
\<close>

theorem missing_key_history_counterexample:
  "map_option (messages \<circ> snd)
     (script_app None
        \<lparr>new_thread = ''thread_1'', new_run = ''run_1'',
          run_status = (\<lambda>k. ''completed''), latest = []\<rparr>
        (Some ''hi'')
        \<lparr>thread_id = None, messages = Some [], requests = [], errors_shown = []\<rparr>)
     = Some (Some [\<lparr>role = ''user'', content = ''hi''\<rparr>,
                   \<lparr>role = ''assistant'', content = []\<rparr>]) \<and>
   map_option (messages \<circ> snd)
     (script_app None
        \<lparr>new_thread = ''thread_1'', new_run = ''run_1'',
          run_status = (\<lambda>k. ''completed''), latest = []\<rparr>
        (Some ''hi'')
        \<lparr>thread_id = None, messages = Some [], requests = [], errors_shown = []\<rparr>)
     \<noteq> Some (Some [])"
  by (simp add: script_app_def script_def append_message_def call_assistant_app_def
      get_client_def)

text \<open>
  C3, amended: with no API key (the variable unset or empty), a submission of a text
  shows the configuration error with \<open>st.error\<close>, sends no request to the service and
  leaves the thread id and the messages already in the history as they are; the
  history grows by the user's message and an assistant message with the empty
  text. This holds for both variants.
\<close>

theorem missing_key_submission:
  assumes "api_key = None \<or> api_key = Some []" "user_input \<noteq> []"
  shows "script_app api_key svc (Some user_input) s =
           Some (None, s\<lparr>messages := Some (history s @
                            [\<lparr>role = ''user'', content = user_input\<rparr>,
                             \<lparr>role = ''assistant'', content = []\<rparr>]),
                          errors_shown := errors_shown s @ [configuration_error]\<rparr>) \<and>
         script_chart api_key svc (Some user_input) s =
           Some (None, s\<lparr>messages := Some (history s @
                            [\<lparr>role = ''user'', content = user_input\<rparr>,
                             \<lparr>role = ''assistant'', content = []\<rparr>]),
                          errors_shown := errors_shown s @ [configuration_error]\<rparr>)"
  using script_app_missing_key [OF assms] script_chart_missing_key [OF assms] by simp

theorem missing_key_submission_witness:
  "script_app None
     \<lparr>new_thread = ''thread_1'', new_run = ''run_1'',
       run_status = (\<lambda>k. ''completed''), latest = []\<rparr>
     (Some ''hi'')
     \<lparr>thread_id = None, messages = Some [\<lparr>role = ''user'', content = ''a''\<rparr>],
       requests = [ThreadsCreate], errors_shown = []\<rparr>
   = Some (None,
       \<lparr>thread_id = None,
         messages = Some [\<lparr>role = ''user'', content = ''a''\<rparr>,
                          \<lparr>role = ''user'', content = ''hi''\<rparr>,
                          \<lparr>role = ''assistant'', content = []\<rparr>],
         requests = [ThreadsCreate], errors_shown = [configuration_error]\<rparr>)"
proof -
  have h: "None = None \<or> None = Some ''''" "''hi'' \<noteq> []" by simp_all
  from missing_key_submission [OF h] show ?thesis
    by (simp add: history_def)
qed

text \<open>
  C10: with no API key, \<open>call_assistant\<close> returns the empty text (a text, not
  \<open>None\<close>), and the caller appends it to the history as an assistant message after
  the user's message, so that the history grows by two entries. This holds for both
  variants.
\<close>

theorem missing_key_empty_reply:
  assumes "api_key = None \<or> api_key = Some []"
  shows "map_option fst (call_assistant_app api_key svc user_text s) = Some (Inr []) \<and>
         map_option fst (call_assistant_chart api_key svc user_text s) = Some (Inr []) \<and>
         (user_text \<noteq> [] \<longrightarrow>
            (\<exists>s1 s2. script_app api_key svc (Some user_text) s = Some (None, s1) \<and>
                     script_chart api_key svc (Some user_text) s = Some (None, s2) \<and>
                     history s1 = history s @ [\<lparr>role = ''user'', content = user_text\<rparr>,
                                               \<lparr>role = ''assistant'', content = []\<rparr>] \<and>
                     history s2 = history s @ [\<lparr>role = ''user'', content = user_text\<rparr>,
                                               \<lparr>role = ''assistant'', content = []\<rparr>] \<and>
                     length (history s1) = length (history s) + 2 \<and>
                     length (history s2) = length (history s) + 2))"
proof -
  have "map_option fst (call_assistant_app api_key svc user_text s) = Some (Inr [])"
    by (simp add: app_missing_key [OF assms])
  moreover have "map_option fst (call_assistant_chart api_key svc user_text s) = Some (Inr [])"
    by (simp add: chart_missing_key [OF assms])
  moreover have "\<exists>s1 s2. script_app api_key svc (Some user_text) s = Some (None, s1) \<and>
                     script_chart api_key svc (Some user_text) s = Some (None, s2) \<and>
                     history s1 = history s @ [\<lparr>role = ''user'', content = user_text\<rparr>,
                                               \<lparr>role = ''assistant'', content = []\<rparr>] \<and>
                     history s2 = history s @ [\<lparr>role = ''user'', content = user_text\<rparr>,
                                               \<lparr>role = ''assistant'', content = []\<rparr>] \<and>
                     length (history s1) = length (history s) + 2 \<and>
                     length (history s2) = length (history s) + 2"
    if u: "user_text \<noteq> []"
    using script_app_missing_key [OF assms u, of svc s] script_chart_missing_key [OF assms u, of svc s]
    by (simp add: history_def)
  ultimately show ?thesis by blast
qed

theorem missing_key_empty_reply_witness:
  "map_option fst
     (call_assistant_chart (Some [])
        \<lparr>new_thread = ''thread_1'', new_run = ''run_1'',
          run_status = (\<lambda>k. ''completed''), latest = []\<rparr>
        ''hi''
        \<lparr>thread_id = None, messages = Some [], requests = [], errors_shown = []\<rparr>)
     = Some (Inr []) \<and>
   (\<exists>s1. script_app (Some [])
        \<lparr>new_thread = ''thread_1'', new_run = ''run_1'',
          run_status = (\<lambda>k. ''completed''), latest = []\<rparr>
        (Some ''hi'')
        \<lparr>thread_id = None, messages = Some [], requests = [], errors_shown = []\<rparr>
      = Some (None, s1) \<and> length (history s1) = 2)"
proof -
  have h: "Some [] = None \<or> Some [] = Some ''''" by simp
  have u: "''hi'' \<noteq> []" by simp
  from missing_key_empty_reply [OF h, of
      "\<lparr>new_thread = ''thread_1'', new_run = ''run_1'',
          run_status = (\<lambda>k. ''completed''), latest = []\<rparr>" "''hi''"
      "\<lparr>thread_id = None, messages = Some [], requests = [], errors_shown = []\<rparr>"] u
  show ?thesis by (auto simp: history_def)
qed

subsection \<open>The reply of a run\<close>

text \<open>
  C4, as stated: when the run is completed, the reply is all content segments of the
  latest message, joined by one space in their order, text segments as they are
  and every other segment replaced by a placeholder. In app.py the reply is the
  text of the first segment alone: for the segments \<open>a\<close>, \<open>b\<close> it is \<open>a\<close>. In chart\_app.py
  only a segment of type \<open>image_file\<close> gets the placeholder: for the segments \<open>a\<close>, an
  image URL, \<open>b\<close> the reply is \<open>a b\<close>.
\<close>

theorem completed_reply_counterexample:
  "map_option fst
     (call_assistant_app (Some ''key'')
        \<lparr>new_thread = ''thread_1'', new_run = ''run_1'', run_status = (\<lambda>k. ''completed''),
          latest = [[TextContentBlock ''a'', TextContentBlock ''b'']]\<rparr>
        ''hi''
        \<lparr>thread_id = Some ''thread_0'', messages = Some [], requests = [], errors_shown = []\<rparr>)
     = Some (Inr ''a'') \<and>
   map_option fst
     (call_assistant_chart (Some ''key'')
        \<lparr>new_thread = ''thread_1'', new_run = ''run_1'', run_status = (\<lambda>k. ''completed''),
          latest = [[TextContentBlock ''a'', ImageURLContentBlock, TextContentBlock ''b'']]\<rparr>
        ''hi''
        \<lparr>thread_id = Some ''thread_0'', messages = Some [], requests = [], errors_shown = []\<rparr>)
     = Some (Inr ''a b'')"
  by (simp add: call_assistant_app_def call_assistant_chart_def get_client_def ensure_thread_def
      send_def poll.simps terminal_def)

text \<open>
  C4, amended: with an API key configured, when the first terminal status of the run
  is \<open>completed\<close> and a message is listed, \<open>call_assistant\<close> of chart\_app.py returns the
  segments of that message joined by one space in their order, where a text segment
  gives its text, a segment of type \<open>image_file\<close> gives the placeholder \<open>[Image]\<close>, and
  a segment of any other type gives nothing; \<open>call_assistant\<close> of app.py returns the
  text of the first segment when that segment is a text.
\<close>

theorem completed_reply:
  assumes "api_key = Some key" "key \<noteq> []"
    and "\<forall>j<n. \<not> terminal (run_status svc j)" "run_status svc n = ''completed''"
    and "latest svc = blocks # older"
  shows "(\<exists>s'. call_assistant_chart api_key svc user_text s =
            Some (Inr (join '' ''
                    (List.map_filter
                       (\<lambda>b. case b of TextContentBlock v \<Rightarrow> Some v
                                     | ImageFileContentBlock \<Rightarrow> Some ''[Image]''
                                     | _ \<Rightarrow> None) blocks)), s')) \<and>
         (\<forall>v bs. blocks = TextContentBlock v # bs \<longrightarrow>
            (\<exists>s'. call_assistant_app api_key svc user_text s = Some (Inr v, s')))"
proof -
  have "\<exists>s'. call_assistant_chart api_key svc user_text s =
            Some (Inr (join '' ''
                    (List.map_filter
                       (\<lambda>b. case b of TextContentBlock v \<Rightarrow> Some v
                                     | ImageFileContentBlock \<Rightarrow> Some ''[Image]''
                                     | _ \<Rightarrow> None) blocks)), s')"
    using chart_completed [OF assms, of user_text s]
    by (simp add: collect_parts_map_filter)
  moreover have "\<exists>s'. call_assistant_app api_key svc user_text s = Some (Inr v, s')"
    if "blocks = TextContentBlock v # bs" for v bs
    using app_completed [OF assms(1,2,3,4), of v bs older user_text s] assms(5) that by simp
  ultimately show ?thesis by blast
qed

theorem completed_reply_witness:
  "(\<exists>s'. call_assistant_chart (Some ''key'')
        \<lparr>new_thread = ''thread_1'', new_run = ''run_1'',
          run_status = (\<lambda>k. if k < 2 then ''queued'' else ''completed''),
          latest = [[TextContentBlock ''Sales: 10'', ImageFileContentBlock,
                     TextContentBlock ''done'']]\<rparr>
        ''hi''
        \<lparr>thread_id = None, messages = Some [], requests = [], errors_shown = []\<rparr>
      = Some (Inr ''Sales: 10 [Image] done'', s')) \<and>
   (\<exists>s'. call_assistant_app (Some ''key'')
        \<lparr>new_thread = ''thread_1'', new_run = ''run_1'',
          run_status = (\<lambda>k. if k < 2 then ''queued'' else ''completed''),
          latest = [[TextContentBlock ''Sales: 10'', ImageFileContentBlock,
                     TextContentBlock ''done'']]\<rparr>
        ''hi''
        \<lparr>thread_id = None, messages = Some [], requests = [], errors_shown = []\<rparr>
      = Some (Inr ''Sales: 10'', s'))"
proof -
  let ?svc = "\<lparr>new_thread = ''thread_1'', new_run = ''run_1'',
          run_status = (\<lambda>k. if k < 2 then ''queued'' else ''completed''),
          latest = [[TextContentBlock ''Sales: 10'', ImageFileContentBlock,
                     TextContentBlock ''done'']]\<rparr>"
  have a: "Some ''key'' = Some ''key''" "''key'' \<noteq> []" by simp_all
  have b: "\<forall>j<2::nat. \<not> terminal (run_status ?svc j)" by (simp add: terminal_def)
  have c: "run_status ?svc 2 = ''completed''" by simp
  have d: "latest ?svc = [TextContentBlock ''Sales: 10'', ImageFileContentBlock,
                     TextContentBlock ''done''] # []" by simp
  from completed_reply [OF a b c d] show ?thesis
    by (simp add: List.map_filter_simps)
qed

text \<open>
  C5: with an API key configured, for every run whose first terminal status is
  \<open>failed\<close>, \<open>cancelled\<close> or \<open>expired\<close>, \<open>call_assistant\<close> returns (it raises nothing) a text
  that contains the name of the status; so a run that ends \<open>expired\<close> gives a
  reply that contains \<open>expired\<close>. This holds for both variants.
\<close>

theorem run_not_completed_reported:
  assumes "api_key = Some key" "key \<noteq> []"
    and "\<forall>j<n. \<not> terminal (run_status svc j)" "run_status svc n = status"
    and "status = ''failed'' \<or> status = ''cancelled'' \<or> status = ''expired''"
  shows "(\<exists>s'. call_assistant_app api_key svc user_text s = Some (Inr (status_message status), s')) \<and>
         (\<exists>s'. call_assistant_chart api_key svc user_text s = Some (Inr (status_message status), s')) \<and>
         sublist status (status_message status)"
proof -
  have t: "terminal (run_status svc n)" and c: "run_status svc n \<noteq> ''completed''"
    using assms(4,5) by (auto simp: terminal_def)
  show ?thesis
    using app_not_completed [OF assms(1,2,3) t c, of user_text s]
      chart_not_completed [OF assms(1,2,3) t c, of user_text s]
      sublist_status_message [of status] assms(4)
    by simp
qed

theorem run_not_completed_reported_witness:
  "(\<exists>s'. call_assistant_app (Some ''key'')
        \<lparr>new_thread = ''thread_1'', new_run = ''run_1'',
          run_status = (\<lambda>k. if k < 3 then ''in_progress'' else ''expired''), latest = []\<rparr>
        ''hi''
        \<lparr>thread_id = None, messages = Some [], requests = [], errors_shown = []\<rparr>
      = Some (Inr (status_message ''expired''), s')) \<and>
   sublist ''expired'' (status_message ''expired'')"
proof -
  let ?svc = "\<lparr>new_thread = ''thread_1'', new_run = ''run_1'',
          run_status = (\<lambda>k. if k < 3 then ''in_progress'' else ''expired''), latest = []\<rparr>"
  have a: "Some ''key'' = Some ''key''" "''key'' \<noteq> []" by simp_all
  have b: "\<forall>j<3::nat. \<not> terminal (run_status ?svc j)" by (simp add: terminal_def)
  have c: "run_status ?svc 3 = ''expired''" by simp
  have d: "''expired'' = ''failed'' \<or> ''expired'' = ''cancelled'' \<or> ''expired'' = ''expired''"
    by simp
  from run_not_completed_reported [OF a b c d] show ?thesis by blast
qed

subsection \<open>The conversation handle\<close>

text \<open>
  C6: \<open>ensure_thread\<close> returns the thread id of the session unchanged, and sends
  nothing, when the session has one. Otherwise it creates a thread, stores its id in
  the session, and submits to it every stored message of role \<open>user\<close>, in the order of
  the history and no message of another role, before it returns the new id.
\<close>

theorem ensure_thread_handle:
  "(thread_id s = Some tid \<longrightarrow> ensure_thread cl aid svc s = (tid, s)) \<and>
   (thread_id s = None \<longrightarrow>
      ensure_thread cl aid svc s =
        (new_thread svc,
         s\<lparr>thread_id := Some (new_thread svc),
           requests := requests s @ ThreadsCreate #
             map (\<lambda>m. MessagesCreate (new_thread svc) ''user'' (content m))
               (filter (\<lambda>m. role m = ''user'') (history s))\<rparr>))"
  using ensure_thread_existing ensure_thread_new by blast

theorem ensure_thread_handle_witness:
  "ensure_thread (OpenAI ''key'') assistant_id
     \<lparr>new_thread = ''thread_1'', new_run = ''run_1'',
       run_status = (\<lambda>k. ''completed''), latest = []\<rparr>
     \<lparr>thread_id = Some ''thread_0'',
       messages = Some [\<lparr>role = ''user'', content = ''a''\<rparr>],
       requests = [], errors_shown = []\<rparr>
   = (''thread_0'',
      \<lparr>thread_id = Some ''thread_0'',
        messages = Some [\<lparr>role = ''user'', content = ''a''\<rparr>],
        requests = [], errors_shown = []\<rparr>) \<and>
   ensure_thread (OpenAI ''key'') assistant_id
     \<lparr>new_thread = ''thread_1'', new_run = ''run_1'',
       run_status = (\<lambda>k. ''completed''), latest = []\<rparr>
     \<lparr>thread_id = None,
       messages = Some [\<lparr>role = ''user'', content = ''a''\<rparr>,
                        \<lparr>role = ''assistant'', content = ''b''\<rparr>,
                        \<lparr>role = ''user'', content = ''c''\<rparr>],
       requests = [], errors_shown = []\<rparr>
   = (''thread_1'',
      \<lparr>thread_id = Some ''thread_1'',
        messages = Some [\<lparr>role = ''user'', content = ''a''\<rparr>,
                         \<lparr>role = ''assistant'', content = ''b''\<rparr>,
                         \<lparr>role = ''user'', content = ''c''\<rparr>],
        requests = [ThreadsCreate, MessagesCreate ''thread_1'' ''user'' ''a'',
                    MessagesCreate ''thread_1'' ''user'' ''c''],
        errors_shown = []\<rparr>)"
  using
    ensure_thread_handle [of
      "\<lparr>thread_id = Some ''thread_0'',
        messages = Some [\<lparr>role = ''user'', content = ''a''\<rparr>],
        requests = [], errors_shown = []\<rparr>" "''thread_0''" "OpenAI ''key''" assistant_id
      "\<lparr>new_thread = ''thread_1'', new_run = ''run_1'',
        run_status = (\<lambda>k. ''completed''), latest = []\<rparr>"]
    ensure_thread_handle [of
      "\<lparr>thread_id = None,
       messages = Some [\<lparr>role = ''user'', content = ''a''\<rparr>,
                        \<lparr>role = ''assistant'', content = ''b''\<rparr>,
                        \<lparr>role = ''user'', content = ''c''\<rparr>],
       requests = [], errors_shown = []\<rparr>" "''x''" "OpenAI ''key''" assistant_id
      "\<lparr>new_thread = ''thread_1'', new_run = ''run_1'',
        run_status = (\<lambda>k. ''completed''), latest = []\<rparr>"]
  by (simp add: history_def)

subsection \<open>The history of a session\<close>



end
